theory Spec2Isabelle
  imports Complex_Main "HOL-Library.Log_Nat" "HOL-Library.Multiset"
begin

section \<open>JavaScript numbers\<close>

text \<open>
  A JavaScript number is an IEEE 754 binary64 value. The finite ones are rationals, and
  every arithmetic operation returns the exact result rounded to the nearest binary64
  value, ties to the even significand. \<open>fl64\<close> is that rounding for results in the
  normal range (53 significant bits, exponent unbounded); the numbers of this program
  (milliseconds, hours) stay far inside it.
\<close>

definition rhe :: "rat \<Rightarrow> int" where
  "rhe z = (let f = \<lfloor>z\<rfloor>; r = z - of_int f
            in if r < 1 / 2 then f else if 1 / 2 < r then f + 1
               else if even f then f else f + 1)"

definition ilog2 :: "rat \<Rightarrow> int" where
  "ilog2 x = (let (p, q) = quotient_of x; k = bitlen p - bitlen q
              in if 2 powi k \<le> x then k else k - 1)"

definition fl64 :: "rat \<Rightarrow> rat" where
  "fl64 x = (if x = 0 then 0
             else let e = ilog2 \<bar>x\<bar> - 52 in of_int (rhe (x / 2 powi e)) * 2 powi e)"

definition js_add :: "rat \<Rightarrow> rat \<Rightarrow> rat" where
  "js_add a b = fl64 (a + b)"

definition js_sub :: "rat \<Rightarrow> rat \<Rightarrow> rat" where
  "js_sub a b = fl64 (a - b)"

definition js_mul :: "rat \<Rightarrow> rat \<Rightarrow> rat" where
  "js_mul a b = fl64 (a * b)"

definition js_div :: "rat \<Rightarrow> rat \<Rightarrow> rat" where
  "js_div a b = fl64 (a / b)"

text \<open>\<open>Math.round\<close>: the nearest integer, a tie going up. The result is exact.\<close>

definition Math_round :: "rat \<Rightarrow> rat" where
  "Math_round x = of_int \<lfloor>x + 1 / 2\<rfloor>"

text \<open>
  The values of a number that are not finite: the two infinities and \<open>NaN\<close>. A
  caller may pass any of them where the code takes a \<open>number\<close>; \<open>parseFloat\<close> of a
  text that does not start with a numeral is \<open>NaN\<close>. The zero of \<open>Num\<close> stands for both
  of JavaScript's zeros, which no test of this program tells apart.
\<close>

datatype js_number = Num rat | Infinity | MinusInfinity | NaN

text \<open>The comparisons \<open>a >= b\<close> and \<open>a < b\<close> of a finite \<open>a\<close> with any number: both
  are false when \<open>b\<close> is \<open>NaN\<close>.\<close>

fun js_ge :: "rat \<Rightarrow> js_number \<Rightarrow> bool" where
  "js_ge a (Num b) = (b \<le> a)"
| "js_ge a Infinity = False"
| "js_ge a MinusInfinity = True"
| "js_ge a NaN = False"

fun js_lt :: "rat \<Rightarrow> js_number \<Rightarrow> bool" where
  "js_lt a (Num b) = (a < b)"
| "js_lt a Infinity = True"
| "js_lt a MinusInfinity = False"
| "js_lt a NaN = False"

section \<open>shared/schema.ts\<close>

text \<open>
  The text \<open>calculateHours\<close> writes: the decimal rendering of a number, then \<open>h\<close>.
  Number-to-string picks the shortest decimal that reads back as the same binary64
  value, and \<open>parseFloat\<close> stops at the \<open>h\<close>: it returns the number.
\<close>

datatype hours_text = Hours rat

fun parseFloat :: "hours_text \<Rightarrow> rat" where
  "parseFloat (Hours n) = n"

text \<open>
  A row of \<open>attendance_records\<close>. \<open>clockInTime\<close> and \<open>clockOutTime\<close> are
  \<open>Date\<close>s, kept as their time value (milliseconds since the epoch). \<open>totalHours\<close>
  is a text column whose only writer is \<open>calculateHours\<close>; such a text is never empty,
  so its truthiness is the test for \<open>null\<close>.
\<close>

record AttendanceRecord =
  id' :: string
  employeeName :: string
  department :: string
  clockInTime :: int
  clockOutTime :: "int option"
  totalHours :: "hours_text option"
  status :: string
  date :: string

text \<open>\<open>InsertAttendance\<close>: the row without its id; the nullable and defaulted columns
  are optional.\<close>

record InsertAttendance =
  ins_employeeName :: string
  ins_department :: string
  ins_clockInTime :: int
  ins_clockOutTime :: "int option"
  ins_totalHours :: "hours_text option"
  ins_status :: "string option"
  ins_date :: string

text \<open>\<open>Partial<AttendanceRecord>\<close>: every field may be absent.\<close>

record PartialAttendance =
  p_id :: "string option"
  p_employeeName :: "string option"
  p_department :: "string option"
  p_clockInTime :: "int option"
  p_clockOutTime :: "int option option"
  p_totalHours :: "hours_text option option"
  p_status :: "string option"
  p_date :: "string option"

definition departments :: "string list" where
  "departments =
     [''Tech Team Alpha'', ''Tech Team Charlie'', ''Human Resources Team'',
      ''Marketing Team'', ''Sales Team'', ''Founder's Office'', ''Content Factory'',
      ''Social Media & Content'', ''Customer Support'', ''Other'']"

text \<open>A zod issue: \<open>min(1)\<close> failed (with the schema's message), or the value is not
  one of the enumeration.\<close>

datatype zod_issue = too_small string | invalid_enum_value string

text \<open>\<open>clockInSchema.parse\<close>. The fields are checked in the order of the schema, and
  the handlers read only the first issue of the error.\<close>

definition clockInSchema_parse :: "string \<Rightarrow> string \<Rightarrow> zod_issue + (string \<times> string)" where
  "clockInSchema_parse name dept =
     (if length name < 1 then Inl (too_small ''Employee name is required'')
      else if dept \<notin> set departments then Inl (invalid_enum_value dept)
      else Inr (name, dept))"

definition clockOutSchema_parse :: "string \<Rightarrow> zod_issue + string" where
  "clockOutSchema_parse recordId =
     (if length recordId < 1 then Inl (too_small ''Record ID is required'')
      else Inr recordId)"

section \<open>server/storage.ts\<close>

subsection \<open>Map\<close>

text \<open>A JavaScript \<open>Map\<close> iterates in insertion order, and \<open>set\<close> on a key it
  holds keeps the key's place: an association list, oldest entry first.\<close>

type_synonym 'v js_map = "(string \<times> 'v) list"

fun map_set :: "string \<Rightarrow> 'v \<Rightarrow> 'v js_map \<Rightarrow> 'v js_map" where
  "map_set k v [] = [(k, v)]"
| "map_set k v ((k', v') # m) =
     (if k' = k then (k, v) # m else (k', v') # map_set k v m)"

definition map_get :: "'v js_map \<Rightarrow> string \<Rightarrow> 'v option" where
  "map_get m k = map_of m k"

definition map_values :: "'v js_map \<Rightarrow> 'v list" where
  "map_values m = map snd m"

subsection \<open>MemStorage\<close>

type_synonym MemStorage = "AttendanceRecord js_map"

definition createAttendanceRecord ::
  "string \<Rightarrow> InsertAttendance \<Rightarrow> MemStorage \<Rightarrow> AttendanceRecord \<times> MemStorage" where
  "createAttendanceRecord uuid record s =
     (let attendanceRecord =
        \<lparr> id' = uuid,
          employeeName = ins_employeeName record,
          department = ins_department record,
          clockInTime = ins_clockInTime record,
          clockOutTime = None,
          totalHours = None,
          status = ''active'',
          date = ins_date record \<rparr>
      in (attendanceRecord, map_set uuid attendanceRecord s))"

definition getAttendanceRecord :: "MemStorage \<Rightarrow> string \<Rightarrow> AttendanceRecord option" where
  "getAttendanceRecord s k = map_get s k"

text \<open>The object spread \<open>{ ...record, ...updates }\<close>.\<close>

definition spread :: "AttendanceRecord \<Rightarrow> PartialAttendance \<Rightarrow> AttendanceRecord" where
  "spread r u =
     \<lparr> id' = (case p_id u of None \<Rightarrow> id' r | Some v \<Rightarrow> v),
       employeeName = (case p_employeeName u of None \<Rightarrow> employeeName r | Some v \<Rightarrow> v),
       department = (case p_department u of None \<Rightarrow> department r | Some v \<Rightarrow> v),
       clockInTime = (case p_clockInTime u of None \<Rightarrow> clockInTime r | Some v \<Rightarrow> v),
       clockOutTime = (case p_clockOutTime u of None \<Rightarrow> clockOutTime r | Some v \<Rightarrow> v),
       totalHours = (case p_totalHours u of None \<Rightarrow> totalHours r | Some v \<Rightarrow> v),
       status = (case p_status u of None \<Rightarrow> status r | Some v \<Rightarrow> v),
       date = (case p_date u of None \<Rightarrow> date r | Some v \<Rightarrow> v) \<rparr>"

definition updateAttendanceRecord ::
  "string \<Rightarrow> PartialAttendance \<Rightarrow> MemStorage \<Rightarrow> AttendanceRecord option \<times> MemStorage" where
  "updateAttendanceRecord k updates s =
     (case map_get s k of
        None \<Rightarrow> (None, s)
      | Some record \<Rightarrow>
          (let updatedRecord = spread record updates
           in (Some updatedRecord, map_set k updatedRecord s)))"

definition getActiveAttendanceRecord ::
  "MemStorage \<Rightarrow> string \<Rightarrow> string \<Rightarrow> AttendanceRecord option" where
  "getActiveAttendanceRecord s name day =
     find (\<lambda>record. employeeName record = name \<and> date record = day \<and>
                     status record = ''active'')
       (map_values s)"

text \<open>
  A string is the sequence of its UTF-16 code units, and a \<open>char\<close> stands for the code
  unit of the same value: the strings here are those of the characters U+0000 to U+00FF
  (ISO 8859-1). \<open>toLowerCase\<close> maps every cased character to its lower-case form; in
  this range the upper-case letters are \<open>A\<close> to \<open>Z\<close> (0x41 to 0x5A) and the accented
  capitals 0xC0 to 0xDE without the multiplication sign 0xD7, each 0x20 below its
  lower-case form, so that the result stays in the range. \<open>includes\<close> looks for a
  run of code units.
\<close>

definition toLowerCase :: "string \<Rightarrow> string" where
  "toLowerCase s =
     map (\<lambda>c. let n = (of_char c :: nat)
              in if (65 \<le> n \<and> n \<le> 90) \<or> (192 \<le> n \<and> n \<le> 222 \<and> n \<noteq> 215)
                 then char_of (n + 32) else c) s"

fun startsWith :: "string \<Rightarrow> string \<Rightarrow> bool" where
  "startsWith s [] = True"
| "startsWith [] (c # t) = False"
| "startsWith (a # s) (c # t) = (a = c \<and> startsWith s t)"

fun includes' :: "string \<Rightarrow> string \<Rightarrow> bool" where
  "includes' [] t = (t = [])"
| "includes' (a # s) t = (startsWith (a # s) t \<or> includes' s t)"

record Filters =
  f_employeeName :: "string option"
  f_department :: "string option"
  f_date :: "string option"
  f_minHours :: "js_number option"

text \<open>Truthiness of an optional string (absent and empty are falsy) and of an optional
  number (absent, zero and \<open>NaN\<close> are falsy; every other number, the infinities
  too, is truthy).\<close>

definition truthy_string :: "string option \<Rightarrow> bool" where
  "truthy_string x = (case x of None \<Rightarrow> False | Some v \<Rightarrow> v \<noteq> [])"

definition truthy_number :: "js_number option \<Rightarrow> bool" where
  "truthy_number x =
     (case x of
        None \<Rightarrow> False
      | Some (Num v) \<Rightarrow> v \<noteq> 0
      | Some Infinity \<Rightarrow> True
      | Some MinusInfinity \<Rightarrow> True
      | Some NaN \<Rightarrow> False)"

text \<open>\<open>Array.prototype.sort\<close> with the comparator \<open>b.clockInTime - a.clockInTime\<close>:
  the sort is stable, so its result is the one list that is descending in
  \<open>clockInTime\<close> and keeps equal keys in the order of the array.\<close>

definition sort_desc :: "AttendanceRecord list \<Rightarrow> AttendanceRecord list" where
  "sort_desc records = sort_key (\<lambda>r. - clockInTime r) records"

definition getAttendanceRecordsByFilters :: "MemStorage \<Rightarrow> Filters \<Rightarrow> AttendanceRecord list" where
  "getAttendanceRecordsByFilters s filters =
     (let records = map_values s;
          records =
            (if truthy_string (f_employeeName filters)
             then filter (\<lambda>record. includes' (toLowerCase (employeeName record))
                                    (toLowerCase (the (f_employeeName filters)))) records
             else records);
          records =
            (if truthy_string (f_department filters)
             then filter (\<lambda>record. department record = the (f_department filters)) records
             else records);
          records =
            (if truthy_string (f_date filters)
             then filter (\<lambda>record. date record = the (f_date filters)) records
             else records);
          records =
            (if truthy_number (f_minHours filters)
             then filter (\<lambda>record.
                    case totalHours record of
                      None \<Rightarrow> False
                    | Some text \<Rightarrow>
                        (let hours = parseFloat text
                         in js_ge hours (the (f_minHours filters)))) records
             else records)
      in sort_desc records)"

record Statistics =
  totalEmployees :: nat
  currentlyActive :: nat
  lateToday :: nat
  avgHoursToday :: rat

definition getAttendanceStatistics :: "string \<Rightarrow> MemStorage \<Rightarrow> Statistics" where
  "getAttendanceStatistics today s =
     (let todayRecords = filter (\<lambda>record. date record = today) (map_values s);
          uniqueEmployees = remdups (map employeeName todayRecords);
          activeRecords = filter (\<lambda>record. status record = ''active'') todayRecords;
          lateRecords = filter (\<lambda>record. status record = ''late'') todayRecords;
          completedRecords = filter (\<lambda>record. totalHours record \<noteq> None) todayRecords;
          totalHours' =
            foldl (\<lambda>sum record.
                js_add sum (case totalHours record of None \<Rightarrow> 0 | Some text \<Rightarrow> parseFloat text))
              0 completedRecords;
          avgHours = (if length completedRecords > 0
                      then js_div totalHours' (of_nat (length completedRecords)) else 0)
      in \<lparr> totalEmployees = length uniqueEmployees,
           currentlyActive = length activeRecords,
           lateToday = length lateRecords,
           avgHoursToday = js_div (Math_round (js_mul avgHours 10)) 10 \<rparr>)"

subsection \<open>DatabaseStorage\<close>

text \<open>The table behind \<open>db\<close>, as the list of its rows. \<open>insert ... returning\<close> adds
  the row and returns it; the id is the column default (\<open>gen\<close>, a fresh
  \<open>gen_random_uuid()\<close>), and a primary key the table already holds is refused.\<close>

datatype db_error = unique_violation

definition db_createAttendanceRecord ::
  "string \<Rightarrow> InsertAttendance \<Rightarrow> AttendanceRecord list
     \<Rightarrow> db_error + AttendanceRecord \<times> AttendanceRecord list" where
  "db_createAttendanceRecord gen record rows =
     (let attendanceRecord =
        \<lparr> id' = gen,
          employeeName = ins_employeeName record,
          department = ins_department record,
          clockInTime = ins_clockInTime record,
          clockOutTime = None,
          totalHours = None,
          status = ''active'',
          date = ins_date record \<rparr>
      in if gen \<in> id' ` set rows then Inl unique_violation
         else Inr (attendanceRecord, rows @ [attendanceRecord]))"

section \<open>server/routes.ts\<close>

definition calculateHours :: "int \<Rightarrow> int \<Rightarrow> hours_text" where
  "calculateHours clockIn clockOut =
     (let diffMs = js_sub (of_int clockOut) (of_int clockIn);
          diffHours = js_div diffMs (1000 * 60 * 60)
      in Hours (js_div (Math_round (js_mul diffHours 100)) 100))"

text \<open>\<open>getHours\<close> and \<open>getMinutes\<close> read the local time: the time value shifted by
  the zone's offset at that instant (\<open>tza\<close>, in milliseconds).\<close>

definition getHours :: "(int \<Rightarrow> int) \<Rightarrow> int \<Rightarrow> int" where
  "getHours tza t = (t + tza t) div 3600000 mod 24"

definition getMinutes :: "(int \<Rightarrow> int) \<Rightarrow> int \<Rightarrow> int" where
  "getMinutes tza t = (t + tza t) div 60000 mod 60"

definition determineStatus :: "(int \<Rightarrow> int) \<Rightarrow> int \<Rightarrow> string" where
  "determineStatus tza clockInTime' =
     (let hour = getHours tza clockInTime';
          minute = getMinutes tza clockInTime'
      in if hour > 9 \<or> (hour = 9 \<and> minute > 15) then ''late'' else ''active'')"

text \<open>What a handler reads from its environment: the zone, the two \<open>new Date()\<close> of the
  clock-in handler (the first only for its ISO date) and the \<open>randomUUID()\<close> of the
  storage.\<close>

record Env =
  LocalTZA :: "int \<Rightarrow> int"
  today :: string
  now :: int
  uuid :: string

text \<open>The failures of the handlers: a \<open>ZodError\<close> (status 400 with the first issue's
  message), status 400 \<open>Employee already clocked in today\<close> with the \<open>recordId\<close>,
  status 404 \<open>Attendance record not found\<close>, status 400
  \<open>Employee already clocked out\<close>.\<close>

datatype error =
    ValidationError zod_issue
  | DuplicateSessionError string
  | NotFoundError
  | AlreadyClosedError

definition clockIn ::
  "Env \<Rightarrow> string \<Rightarrow> string \<Rightarrow> MemStorage \<Rightarrow> (error + AttendanceRecord) \<times> MemStorage" where
  "clockIn env name dept s =
     (case clockInSchema_parse name dept of
        Inl issue \<Rightarrow> (Inl (ValidationError issue), s)
      | Inr (employeeName', department') \<Rightarrow>
          (case getActiveAttendanceRecord s employeeName' (today env) of
             Some existingRecord \<Rightarrow> (Inl (DuplicateSessionError (id' existingRecord)), s)
           | None \<Rightarrow>
               (let clockInTime' = now env;
                    status' = determineStatus (LocalTZA env) clockInTime';
                    (record, s') =
                      createAttendanceRecord (uuid env)
                        \<lparr> ins_employeeName = employeeName',
                          ins_department = department',
                          ins_clockInTime = clockInTime',
                          ins_clockOutTime = None,
                          ins_totalHours = None,
                          ins_status = Some status',
                          ins_date = today env \<rparr> s
                in (Inr record, s'))))"

definition clockOut ::
  "int \<Rightarrow> string \<Rightarrow> MemStorage \<Rightarrow> (error + AttendanceRecord option) \<times> MemStorage" where
  "clockOut clockOutTime' recordId s =
     (case clockOutSchema_parse recordId of
        Inl issue \<Rightarrow> (Inl (ValidationError issue), s)
      | Inr recordId' \<Rightarrow>
          (case getAttendanceRecord s recordId' of
             None \<Rightarrow> (Inl NotFoundError, s)
           | Some record \<Rightarrow>
               if clockOutTime record \<noteq> None then (Inl AlreadyClosedError, s)
               else
                 (let totalHours' = calculateHours (clockInTime record) clockOutTime';
                      (updatedRecord, s') =
                        updateAttendanceRecord (id' record)
                          \<lparr> p_id = None, p_employeeName = None, p_department = None,
                            p_clockInTime = None,
                            p_clockOutTime = Some (Some clockOutTime'),
                            p_totalHours = Some (Some totalHours'),
                            p_status = Some ''completed'',
                            p_date = None \<rparr> s
                  in (Inr updatedRecord, s'))))"

text \<open>
  The server. \<open>storage\<close> is the one \<open>MemStorage\<close> of the process, created empty,
  and the two posting routes are the only writers. A handler awaits nothing but the
  storage, whose methods wait for no event, so a request is handled to its end before
  the next one starts: the store after a sequence of requests is the fold of the
  handlers over it.
\<close>

datatype request = clock_in Env string string | clock_out int string

fun post :: "MemStorage \<Rightarrow> request \<Rightarrow> MemStorage" where
  "post s (clock_in env name dept) = snd (clockIn env name dept s)"
| "post s (clock_out clockOutTime' recordId) = snd (clockOut clockOutTime' recordId s)"

definition served :: "request list \<Rightarrow> MemStorage" where
  "served requests = foldl post [] requests"

section \<open>Stores and sample data\<close>

text \<open>Every store the storage builds keeps one entry per key and files each record
  under its own id.\<close>

definition wf_store :: "MemStorage \<Rightarrow> bool" where
  "wf_store s = (distinct (map fst s) \<and> (\<forall>(k, r) \<in> set s. id' r = k))"

text \<open>What the handlers keep true of the store: it is well formed; a session is either
  \<open>active\<close> with no clock-out time and no total hours, or \<open>completed\<close> with both;
  and an employee has at most one \<open>active\<close> session per day.\<close>

definition store_inv :: "MemStorage \<Rightarrow> bool" where
  "store_inv s =
     (wf_store s \<and>
      (\<forall>r \<in> set (map_values s).
         (status r = ''active'' \<and> clockOutTime r = None \<and> totalHours r = None) \<or>
         (status r = ''completed'' \<and> clockOutTime r \<noteq> None \<and> totalHours r \<noteq> None)) \<and>
      (\<forall>name day.
         length (filter (\<lambda>r. employeeName r = name \<and> date r = day \<and> status r = ''active'')
                   (map_values s)) \<le> 1))"

text \<open>The spec's reading of a usable name is one that is non-empty after trimming
  white space.\<close>

definition spec_trim :: "string \<Rightarrow> string" where
  "spec_trim s =
     (let white = (\<lambda>c. c \<in> set [CHR '' '', CHR 0x09, CHR 0x0A, CHR 0x0B, CHR 0x0C, CHR 0x0D])
      in rev (dropWhile white (rev (dropWhile white s))))"

text \<open>A server in the UTC zone, at 2024-01-01 10:00:00.\<close>

definition UTC :: "int \<Rightarrow> int" where
  "UTC t = 0"

definition env_10am :: Env where
  "env_10am = \<lparr> LocalTZA = UTC, today = ''2024-01-01'', now = 1704103200000, uuid = ''u1'' \<rparr>"

definition session :: "string \<Rightarrow> string \<Rightarrow> string \<Rightarrow> AttendanceRecord" where
  "session k name st =
     \<lparr> id' = k, employeeName = name, department = ''Other'', clockInTime = 1704103200000,
       clockOutTime = None, totalHours = None, status = st, date = ''2024-01-01'' \<rparr>"

definition closed_session :: "string \<Rightarrow> string \<Rightarrow> AttendanceRecord" where
  "closed_session k name =
     \<lparr> id' = k, employeeName = name, department = ''Other'', clockInTime = 1704103200000,
       clockOutTime = Some 1704112200000, totalHours = Some (Hours (5 / 2)),
       status = ''completed'',
       date = ''2024-01-01'' \<rparr>"

definition late_insert :: InsertAttendance where
  "late_insert =
     \<lparr> ins_employeeName = ''bob'', ins_department = ''Other'',
       ins_clockInTime = 1704103200000, ins_clockOutTime = None, ins_totalHours = None,
       ins_status = Some ''late'', ins_date = ''2024-01-01'' \<rparr>"

text \<open>What the listing selects: a record passes a filter field that is absent or falsy
  (the empty string; the numbers zero and \<open>NaN\<close>), and otherwise has to match it.\<close>

definition other_filters :: "Filters \<Rightarrow> AttendanceRecord \<Rightarrow> bool" where
  "other_filters f r =
     ((case f_employeeName f of
         None \<Rightarrow> True
       | Some n \<Rightarrow> n = [] \<or> includes' (toLowerCase (employeeName r)) (toLowerCase n)) \<and>
      (case f_department f of None \<Rightarrow> True | Some d \<Rightarrow> d = [] \<or> department r = d) \<and>
      (case f_date f of None \<Rightarrow> True | Some d \<Rightarrow> d = [] \<or> date r = d))"

definition hours_filter :: "Filters \<Rightarrow> AttendanceRecord \<Rightarrow> bool" where
  "hours_filter f r =
     (case f_minHours f of
        None \<Rightarrow> True
      | Some v \<Rightarrow>
          v = Num 0 \<or> v = NaN \<or>
          (case totalHours r of None \<Rightarrow> False | Some h \<Rightarrow> js_ge (parseFloat h) v))"

definition selected :: "Filters \<Rightarrow> AttendanceRecord \<Rightarrow> bool" where
  "selected f r = (other_filters f r \<and> hours_filter f r)"

text \<open>Today's sessions, those of them that are open, and the total hours of those that
  have them.\<close>

definition todayRecords :: "string \<Rightarrow> MemStorage \<Rightarrow> AttendanceRecord list" where
  "todayRecords day s = filter (\<lambda>r. date r = day) (map_values s)"

definition openToday :: "string \<Rightarrow> MemStorage \<Rightarrow> AttendanceRecord list" where
  "openToday day s = filter (\<lambda>r. clockOutTime r = None) (todayRecords day s)"

definition hoursToday :: "string \<Rightarrow> MemStorage \<Rightarrow> rat list" where
  "hoursToday day s =
     map (\<lambda>r. parseFloat (the (totalHours r)))
       (filter (\<lambda>r. totalHours r \<noteq> None) (todayRecords day s))"

text \<open>More sample sessions: one that is open, and one that was closed after a whole
  number of hours.\<close>

definition worked :: "string \<Rightarrow> string \<Rightarrow> int \<Rightarrow> int \<Rightarrow> AttendanceRecord" where
  "worked k name t n =
     \<lparr> id' = k, employeeName = name, department = ''Other'', clockInTime = t,
       clockOutTime = Some (t + n * 3600000), totalHours = Some (Hours (of_int n)),
       status = ''completed'', date = ''2024-01-01'' \<rparr>"

definition arrived :: "string \<Rightarrow> string \<Rightarrow> int \<Rightarrow> string \<Rightarrow> AttendanceRecord" where
  "arrived k name t st =
     \<lparr> id' = k, employeeName = name, department = ''Other'', clockInTime = t,
       clockOutTime = None, totalHours = None, status = st, date = ''2024-01-01'' \<rparr>"

definition no_filter :: Filters where
  "no_filter = \<lparr> f_employeeName = None, f_department = None, f_date = None, f_minHours = None \<rparr>"

text \<open>A day at a server in the UTC zone: cy clocks in at 07:00, ann at 08:00 and bob at
  10:00, and cy clocks out at 15:00; and the store the day ends with.\<close>

definition env_at :: "int \<Rightarrow> string \<Rightarrow> Env" where
  "env_at t k = \<lparr> LocalTZA = UTC, today = ''2024-01-01'', now = t, uuid = k \<rparr>"

definition a_day :: "request list" where
  "a_day =
     [clock_in (env_at 1704092400000 ''u1'') ''cy'' ''Other'',
      clock_in (env_at 1704096000000 ''u2'') ''ann'' ''Other'',
      clock_in (env_at 1704103200000 ''u3'') ''bob'' ''Other'',
      clock_out 1704121200000 ''u1'']"

definition three_sessions :: MemStorage where
  "three_sessions =
     [(''u1'', worked ''u1'' ''cy'' 1704092400000 8),
      (''u2'', arrived ''u2'' ''ann'' 1704096000000 ''active''),
      (''u3'', arrived ''u3'' ''bob'' 1704103200000 ''active'')]"

section \<open>Rounding\<close>

lemma rhe_error: "\<bar>of_int (rhe z) - z\<bar> \<le> 1 / 2"
proof -
  have "of_int \<lfloor>z\<rfloor> \<le> z" "z < of_int \<lfloor>z\<rfloor> + 1"
    by linarith+
  then show ?thesis
    by (auto simp: rhe_def Let_def)
qed

lemma rhe_of_int: "rhe (of_int n) = n"
  by (simp add: rhe_def)

lemma two_powi_pos: "0 < (2::rat) powi k"
  by (simp add: zero_less_power_int)

lemma two_powi_mono: "a \<le> b \<Longrightarrow> (2::rat) powi a \<le> 2 powi b"
  by (rule power_int_increasing) simp_all

lemma two_powi_less_cancel:
  assumes "(2::rat) powi a < 2 powi b"
  shows "a < b"
proof (rule ccontr)
  assume "\<not> a < b"
  then have "(2::rat) powi b \<le> 2 powi a" by (intro two_powi_mono) simp
  with assms show False by simp
qed

lemma bitlen_rat_bounds:
  assumes "0 < p"
  shows "(2::rat) powi (bitlen p - 1) \<le> of_int p" "of_int p < (2::rat) powi (bitlen p)"
proof -
  have b1: "1 \<le> bitlen p"
    using assms bitlen_nonneg[of p] bitlen_eq_zero_iff[of p] by linarith
  from bitlen_bounds[OF assms]
  have lo: "2 ^ nat (bitlen p - 1) \<le> p" and hi: "p < 2 ^ nat (bitlen p)" by simp_all
  have "(2::rat) powi (bitlen p - 1) = 2 ^ nat (bitlen p - 1)"
    using b1 by (simp add: power_int_def)
  also have "\<dots> = of_int (2 ^ nat (bitlen p - 1))" by simp
  also have "\<dots> \<le> of_int p" using lo by (simp only: of_int_le_iff)
  finally show "(2::rat) powi (bitlen p - 1) \<le> of_int p" .
  have "of_int p < (of_int (2 ^ nat (bitlen p)) :: rat)" using hi by (simp only: of_int_less_iff)
  also have "\<dots> = 2 ^ nat (bitlen p)" by simp
  also have "\<dots> = 2 powi (bitlen p)" using b1 by (simp add: power_int_def)
  finally show "of_int p < (2::rat) powi (bitlen p)" .
qed

lemma ilog2_bounds:
  assumes "0 < x"
  shows "2 powi (ilog2 x) \<le> x \<and> x < 2 powi (ilog2 x + 1)"
proof -
  obtain p q where pq: "quotient_of x = (p, q)" by (cases "quotient_of x")
  have q: "0 < q" using pq by (rule quotient_of_denom_pos)
  have x: "x = of_int p / of_int q" using pq by (rule quotient_of_div)
  have p: "0 < p"
    using assms q unfolding x by (simp add: zero_less_divide_iff)
  define P :: rat where "P = 2 powi (bitlen p)"
  define Q :: rat where "Q = 2 powi (bitlen q)"
  define k where "k = bitlen p - bitlen q"
  have P: "0 < P" and Q: "0 < Q" by (simp_all add: P_def Q_def two_powi_pos)
  have pl: "P / 2 \<le> of_int p" and ph: "of_int p < P"
    using bitlen_rat_bounds[OF p] by (simp_all add: P_def power_int_diff)
  have ql: "Q / 2 \<le> of_int q" and qh: "of_int q < Q"
    using bitlen_rat_bounds[OF q] by (simp_all add: Q_def power_int_diff)
  have k: "2 powi k = P / Q" by (simp add: k_def P_def Q_def power_int_diff)
  have k1: "2 powi (k + 1) = 2 * P / Q" by (simp add: k power_int_add)
  have km: "2 powi (k - 1) = P / (2 * Q)" by (simp add: k power_int_diff)
  have qpos: "(0::rat) < of_int q" using q by simp
  have ppos: "(0::rat) < of_int p" using p by simp
  have up: "x < 2 powi (k + 1)"
  proof -
    have "of_int p * Q < P * Q" using ph Q by simp
    also have "\<dots> \<le> 2 * P * of_int q" using ql P by (simp add: field_simps)
    finally have "of_int p * Q < 2 * P * of_int q" .
    then show ?thesis unfolding x k1 using qpos Q by (simp add: field_simps)
  qed
  have lo: "2 powi (k - 1) \<le> x"
  proof -
    have "P * of_int q \<le> P * Q" using qh P by simp
    also have "\<dots> \<le> 2 * Q * of_int p" using pl Q by (simp add: field_simps)
    finally have "P * of_int q \<le> 2 * Q * of_int p" .
    then show ?thesis unfolding x km using qpos Q by (simp add: field_simps)
  qed
  show ?thesis
  proof (cases "2 powi k \<le> x")
    case True
    then have "ilog2 x = k" by (simp add: ilog2_def pq k_def)
    with True up show ?thesis by simp
  next
    case False
    then have "ilog2 x = k - 1" by (simp add: ilog2_def pq k_def)
    with False lo show ?thesis by simp
  qed
qed

lemma ilog2_unique:
  assumes "2 powi k \<le> x" "x < 2 powi (k + 1)"
  shows "ilog2 x = k"
proof -
  have pos: "0 < x" using assms(1) two_powi_pos[of k] by linarith
  from ilog2_bounds[OF pos] have b: "2 powi (ilog2 x) \<le> x" "x < 2 powi (ilog2 x + 1)" by simp_all
  have "ilog2 x < k + 1" using b(1) assms(2) by (intro two_powi_less_cancel) linarith
  moreover have "k < ilog2 x + 1" using b(2) assms(1) by (intro two_powi_less_cancel) linarith
  ultimately show ?thesis by simp
qed

lemma fl64_eq:
  assumes "2 powi (e + 52) \<le> \<bar>x\<bar>" "\<bar>x\<bar> < 2 powi (e + 53)"
  shows "fl64 x = of_int (rhe (x / 2 powi e)) * 2 powi e"
proof -
  have "ilog2 \<bar>x\<bar> = e + 52"
    using assms by (intro ilog2_unique) (simp_all add: add.commute add.left_commute)
  moreover have "0 < \<bar>x\<bar>" using assms(1) two_powi_pos[of "e + 52"] by linarith
  then have "x \<noteq> 0" by simp
  ultimately show ?thesis by (simp add: fl64_def Let_def)
qed

lemma rhe_I:
  assumes "of_int n - 1 / 2 < z" "z < of_int n + 1 / 2"
  shows "rhe z = n"
proof -
  have "\<lfloor>z\<rfloor> = n \<or> \<lfloor>z\<rfloor> = n - 1" using assms by linarith
  moreover have "of_int \<lfloor>z\<rfloor> \<le> z" "z < of_int \<lfloor>z\<rfloor> + 1" by linarith+
  ultimately show ?thesis using assms
    by (auto simp: rhe_def Let_def)
qed

lemma fl64_I:
  assumes "2 powi (e + 52) \<le> \<bar>x\<bar>" "\<bar>x\<bar> < 2 powi (e + 53)"
    and "of_int n - 1 / 2 < x / 2 powi e" "x / 2 powi e < of_int n + 1 / 2"
  shows "fl64 x = of_int n * 2 powi e"
  using fl64_eq[OF assms(1,2)] rhe_I[OF assms(3,4)] by simp

lemma fl64_error: "\<bar>fl64 x - x\<bar> \<le> \<bar>x\<bar> / 2 ^ 53"
proof (cases "x = 0")
  case True
  then show ?thesis by (simp add: fl64_def)
next
  case False
  define e where "e = ilog2 \<bar>x\<bar> - 52"
  define E :: rat where "E = 2 powi e"
  have E: "0 < E" by (simp add: E_def two_powi_pos)
  have fl: "fl64 x = of_int (rhe (x / E)) * E"
    using False by (simp add: fl64_def e_def E_def Let_def)
  have "2 powi (ilog2 \<bar>x\<bar>) \<le> \<bar>x\<bar>" using ilog2_bounds[of "\<bar>x\<bar>"] False by simp
  moreover have "(2::rat) powi (ilog2 \<bar>x\<bar>) = E * 2 ^ 52"
    by (simp add: E_def e_def power_int_diff)
  ultimately have lo: "E * 2 ^ 52 \<le> \<bar>x\<bar>" by simp
  have "fl64 x - x = (of_int (rhe (x / E)) - x / E) * E"
    using E by (simp add: fl field_simps)
  then have "\<bar>fl64 x - x\<bar> = \<bar>of_int (rhe (x / E)) - x / E\<bar> * E"
    using E by (simp add: abs_mult)
  also have "\<dots> \<le> 1 / 2 * E"
    using rhe_error[of "x / E"] E by (intro mult_right_mono) simp_all
  also have "\<dots> \<le> \<bar>x\<bar> / 2 ^ 53" using lo by simp
  finally show ?thesis .
qed

lemma fl64_exact:
  assumes "\<bar>n\<bar> < 2 ^ 53"
  shows "fl64 (of_int n * 2 powi e) = of_int n * 2 powi e"
proof (cases "n = 0")
  case True
  then show ?thesis by (simp add: fl64_def)
next
  case False
  define x :: rat where "x = of_int n * 2 powi e"
  have x0: "x \<noteq> 0" using False by (simp add: x_def)
  define L where "L = ilog2 \<bar>x\<bar>"
  have ax: "\<bar>x\<bar> = of_int \<bar>n\<bar> * 2 powi e"
    by (simp add: x_def abs_mult)
  have "of_int \<bar>n\<bar> < (of_int (2 ^ 53) :: rat)" using assms by (simp only: of_int_less_iff)
  then have "\<bar>x\<bar> < 2 ^ 53 * 2 powi e"
    unfolding ax using two_powi_pos[of e] by simp
  also have "\<dots> = 2 powi (e + 53)" by (simp add: power_int_add)
  finally have "\<bar>x\<bar> < 2 powi (e + 53)" .
  moreover have "2 powi L \<le> \<bar>x\<bar>" using ilog2_bounds[of "\<bar>x\<bar>"] x0 by (simp add: L_def)
  ultimately have "L < e + 53" by (intro two_powi_less_cancel) linarith
  then obtain j where j: "e - (L - 52) = int j"
    using zero_le_imp_eq_int[of "e - (L - 52)"] by auto
  have "x / 2 powi (L - 52) = of_int n * 2 powi (e - (L - 52))"
    by (simp add: x_def power_int_diff)
  also have "\<dots> = of_int (n * 2 ^ j)" by (simp add: j)
  finally have z: "x / 2 powi (L - 52) = of_int (n * 2 ^ j)" .
  have "fl64 x = of_int (rhe (x / 2 powi (L - 52))) * 2 powi (L - 52)"
    using x0 by (simp add: fl64_def L_def Let_def)
  also have "\<dots> = of_int (n * 2 ^ j) * 2 powi (L - 52)"
    by (simp only: z rhe_of_int)
  also have "\<dots> = x" using z two_powi_pos[of "L - 52"]
    by (metis less_numeral_extra(3) nonzero_eq_divide_eq)
  finally show ?thesis by (simp add: x_def)
qed

lemma fl64_of_int: "\<bar>n\<bar> < 2 ^ 53 \<Longrightarrow> fl64 (of_int n) = of_int n"
  using fl64_exact[of n 0] by simp


lemma fl64_half_int: "\<bar>n\<bar> < 2 ^ 53 \<Longrightarrow> fl64 (of_int n / 2) = of_int n / 2"
  using fl64_exact[of n "-1"] by (simp add: power_int_minus field_simps)

lemma calculateHours_2h30m: "calculateHours T (T + 9000000) = Hours (5 / 2)"
proof -
  have a: "fl64 9000000 = 9000000" using fl64_of_int[of 9000000] by simp
  have b: "fl64 (5 / 2) = 5 / 2" using fl64_half_int[of 5] by simp
  have c: "fl64 250 = 250" using fl64_of_int[of 250] by simp
  have d: "\<lfloor>(501 / 2 :: rat)\<rfloor> = 250" by linarith
  show ?thesis
    by (simp add: calculateHours_def js_sub_def js_div_def js_mul_def Math_round_def a b c d)
qed

lemma calculateHours_rounds:
  assumes "\<bar>clockOut' - clockIn'\<bar> \<le> 2 ^ 51"
  shows "\<exists>m. calculateHours clockIn' clockOut' = Hours (fl64 (of_int m / 100)) \<and>
             \<bar>of_int m - of_int (clockOut' - clockIn') / 36000\<bar> \<le> (1 / 2 :: rat)"
proof -
  define d where "d = clockOut' - clockIn'"
  define x :: rat where "x = of_int d / 36000"
  define y1 where "y1 = fl64 (of_int d / 3600000)"
  define y2 where "y2 = fl64 (y1 * 100)"
  define m where "m = \<lfloor>y2 + 1 / 2\<rfloor>"
  define u :: rat where "u = 1 / 2 ^ 53"
  have dabs: "\<bar>d\<bar> \<le> 2 ^ 51" using assms by (simp add: d_def)
  then have "\<bar>d\<bar> < 2 ^ 53" by simp
  then have sub: "fl64 (of_int clockOut' - of_int clockIn') = of_int d"
    using fl64_of_int[of d] by (simp add: d_def)
  have calc: "calculateHours clockIn' clockOut' = Hours (fl64 (of_int m / 100))"
    by (simp add: calculateHours_def js_sub_def js_div_def js_mul_def Math_round_def sub
        y1_def y2_def m_def)
  have xabs: "\<bar>x\<bar> \<le> 2 ^ 51 / 36000"
  proof -
    have "(of_int \<bar>d\<bar> :: rat) \<le> of_int (2 ^ 51)" using dabs by (simp only: of_int_le_iff)
    then show ?thesis by (simp add: x_def)
  qed
  have e1: "\<bar>y1 * 100 - x\<bar> \<le> \<bar>x\<bar> * u"
  proof -
    have "\<bar>y1 - of_int d / 3600000\<bar> \<le> \<bar>of_int d / 3600000\<bar> / 2 ^ 53"
      unfolding y1_def by (rule fl64_error)
    then have "\<bar>y1 - x / 100\<bar> \<le> \<bar>x\<bar> / 100 * u" by (simp add: x_def u_def)
    then have "\<bar>y1 - x / 100\<bar> * 100 \<le> \<bar>x\<bar> / 100 * u * 100" by (rule mult_right_mono) simp
    moreover have "\<bar>y1 - x / 100\<bar> * 100 = \<bar>y1 * 100 - x\<bar>"
    proof -
      have eq: "y1 * 100 - x = (y1 - x / 100) * 100" by (simp add: algebra_simps)
      have "\<bar>y1 * 100 - x\<bar> = \<bar>y1 - x / 100\<bar> * \<bar>100\<bar>"
        unfolding eq by (rule abs_mult)
      then show ?thesis by simp
    qed
    ultimately show ?thesis by simp
  qed
  have e2: "\<bar>y2 - y1 * 100\<bar> \<le> \<bar>y1 * 100\<bar> * u"
    unfolding y2_def u_def using fl64_error[of "y1 * 100"] by simp
  have upos: "0 < u" "u \<le> 1" by (simp_all add: u_def)
  have "\<bar>y1 * 100\<bar> \<le> \<bar>x\<bar> + \<bar>x\<bar> * u" using e1 by linarith
  also have "\<dots> \<le> 2 * \<bar>x\<bar>"
  proof -
    have "\<bar>x\<bar> * u \<le> \<bar>x\<bar> * 1" using upos by (intro mult_left_mono) simp_all
    then show ?thesis by simp
  qed
  finally have "\<bar>y1 * 100\<bar> * u \<le> 2 * \<bar>x\<bar> * u" using upos by (intro mult_right_mono) simp_all
  with e1 e2 have "\<bar>y2 - x\<bar> \<le> 3 * \<bar>x\<bar> * u" by linarith
  also have "\<dots> \<le> 3 * (2 ^ 51 / 36000) * u"
    using xabs upos by (intro mult_right_mono mult_left_mono) simp_all
  also have "\<dots> < 1 / 36000" by (simp add: u_def)
  finally have close: "\<bar>y2 - x\<bar> < 1 / 36000" .
  have fl_lo: "of_int m \<le> y2 + 1 / 2" and fl_hi: "y2 + 1 / 2 < of_int m + 1"
    unfolding m_def by linarith+
  have upper: "x \<le> of_int m + 1 / 2"
  proof (rule ccontr)
    assume "\<not> x \<le> of_int m + 1 / 2"
    then have "of_int m + 1 / 2 < of_int d / (36000 :: rat)" by (simp add: x_def)
    then have "(of_int (36000 * m + 18000) :: rat) < of_int d" by (simp add: field_simps)
    then have "36000 * m + 18000 < d" by (simp only: of_int_less_iff)
    then have "36000 * m + 18001 \<le> d" by simp
    then have "(of_int (36000 * m + 18001) :: rat) \<le> of_int d" by (simp only: of_int_le_iff)
    then have "of_int m + 1 / 2 + 1 / 36000 \<le> x" by (simp add: x_def field_simps)
    with fl_hi close show False by linarith
  qed
  have lower: "of_int m - 1 / 2 \<le> x"
  proof (rule ccontr)
    assume "\<not> of_int m - 1 / 2 \<le> x"
    then have "of_int d / (36000 :: rat) < of_int m - 1 / 2" by (simp add: x_def)
    then have "(of_int d :: rat) < of_int (36000 * m - 18000)" by (simp add: field_simps)
    then have "d < 36000 * m - 18000" by (simp only: of_int_less_iff)
    then have "d \<le> 36000 * m - 18001" by simp
    then have "(of_int d :: rat) \<le> of_int (36000 * m - 18001)" by (simp only: of_int_le_iff)
    then have "x \<le> of_int m - 1 / 2 - 1 / 36000" by (simp add: x_def field_simps)
    with fl_lo close show False by linarith
  qed
  have "\<bar>of_int m - x\<bar> \<le> 1 / 2" using upper lower by linarith
  with calc show ?thesis unfolding x_def d_def by blast
qed

section \<open>The map\<close>

lemma map_get_map_set: "map_get (map_set k v m) k' = (if k' = k then Some v else map_get m k')"
  by (induction m) (auto simp: map_get_def)


lemma set_map_set: "set (map_set k v m) \<subseteq> insert (k, v) (set m)"
  by (induction m) (auto split: if_splits)

lemma set_values_map_set: "set (map_values (map_set k v m)) \<subseteq> insert v (set (map_values m))"
proof
  fix x assume "x \<in> set (map_values (map_set k v m))"
  then obtain k' where "(k', x) \<in> set (map_set k v m)"
    by (auto simp: map_values_def)
  with set_map_set[of k v m] have "(k', x) = (k, v) \<or> (k', x) \<in> set m" by auto
  then show "x \<in> insert v (set (map_values m))"
    by (force simp: map_values_def)
qed



lemma fst_map_set: "fst ` set (map_set k v m) = insert k (fst ` set m)"
proof (induction m)
  case Nil
  show ?case by simp
next
  case (Cons a m)
  then show ?case by (cases a) (simp add: insert_commute)
qed

lemma distinct_map_set: "distinct (map fst m) \<Longrightarrow> distinct (map fst (map_set k v m))"
  by (induction m) (auto simp: fst_map_set split: if_splits)

lemma wf_store_map_set: "wf_store s \<Longrightarrow> id' r = k \<Longrightarrow> wf_store (map_set k r s)"
  unfolding wf_store_def using set_map_set[of k r s] by (auto simp: distinct_map_set)

lemma wf_store_get: "wf_store s \<Longrightarrow> getAttendanceRecord s k = Some r \<Longrightarrow> id' r = k"
  unfolding wf_store_def getAttendanceRecord_def map_get_def
  by (auto dest!: map_of_SomeD)

section \<open>The handlers, case by case\<close>

lemma departments_Other: "''Other'' \<in> set departments"
  by (simp add: departments_def)

lemma determineStatus_10am: "determineStatus UTC 1704103200000 = ''late''"
  by (simp add: determineStatus_def getHours_def getMinutes_def UTC_def)

lemma clockIn_success:
  assumes "clockIn env name dept s = (Inr r, s1)"
  shows "name \<noteq> [] \<and> dept \<in> set departments \<and>
    getActiveAttendanceRecord s name (today env) = None \<and>
    r = \<lparr> id' = uuid env, employeeName = name, department = dept, clockInTime = now env,
          clockOutTime = None, totalHours = None, status = ''active'', date = today env \<rparr> \<and>
    s1 = map_set (uuid env) r s"
  using assms
  by (auto simp: clockIn_def clockInSchema_parse_def createAttendanceRecord_def Let_def
      split: if_splits option.splits)

lemma clockOut_success:
  assumes "clockOut t rid s = (Inr u, s')"
  shows "rid \<noteq> [] \<and> (\<exists>r. getAttendanceRecord s rid = Some r \<and> clockOutTime r = None \<and>
           updateAttendanceRecord (id' r)
             \<lparr> p_id = None, p_employeeName = None, p_department = None, p_clockInTime = None,
               p_clockOutTime = Some (Some t),
               p_totalHours = Some (Some (calculateHours (clockInTime r) t)),
               p_status = Some ''completed'', p_date = None \<rparr> s = (u, s'))"
  using assms
  by (auto simp: clockOut_def clockOutSchema_parse_def Let_def
      split: if_splits option.splits prod.splits)

lemma spread_close:
  "spread r \<lparr> p_id = None, p_employeeName = None, p_department = None, p_clockInTime = None,
       p_clockOutTime = Some (Some t), p_totalHours = Some (Some h),
       p_status = Some st, p_date = None \<rparr> =
   r \<lparr> clockOutTime := Some t, totalHours := Some h, status := st \<rparr>"
  by (cases r) (simp add: spread_def)

lemma clockOut_open:
  assumes "recordId \<noteq> []" "getAttendanceRecord s recordId = Some r" "clockOutTime r = None"
    "id' r = recordId"
  shows "clockOut t recordId s =
    (Inr (Some (r \<lparr> clockOutTime := Some t,
                    totalHours := Some (calculateHours (clockInTime r) t),
                    status := ''completed'' \<rparr>)),
     map_set recordId (r \<lparr> clockOutTime := Some t,
                    totalHours := Some (calculateHours (clockInTime r) t),
                    status := ''completed'' \<rparr>) s)"
  using assms
  by (simp add: clockOut_def clockOutSchema_parse_def updateAttendanceRecord_def
      getAttendanceRecord_def spread_close Let_def)

lemma clockOut_example:
  "clockOut 1704112200000 ''u1'' [(''u1'', session ''u1'' ''bob'' ''active'')] =
     (Inr (Some (closed_session ''u1'' ''bob'')), [(''u1'', closed_session ''u1'' ''bob'')])"
proof -
  have "calculateHours 1704103200000 1704112200000 = Hours (5 / 2)"
    using calculateHours_2h30m[of 1704103200000] by simp
  then show ?thesis
    by (simp add: clockOut_open[where r = "session ''u1'' ''bob'' ''active''"]
        getAttendanceRecord_def map_get_def session_def closed_session_def)
qed

lemma wf_store_example: "wf_store [(''u1'', session ''u1'' ''bob'' ''active'')]"
  by (simp add: wf_store_def session_def)

section \<open>Creation\<close>

text \<open>
  C10. Whatever insert argument \<open>createAttendanceRecord\<close> is given, also one whose
  status is \<open>late\<close>, the record it stores and returns has status \<open>active\<close> and neither
  a clock-out time nor total hours: the in-memory storage and the database-backed one
  both overwrite the caller's status.
\<close>

theorem createAttendanceRecord_status_overwritten:
  "(let (r, s') = createAttendanceRecord k record s
    in status r = ''active'' \<and> clockOutTime r = None \<and> totalHours r = None \<and>
       getAttendanceRecord s' k = Some r) \<and>
   (\<forall>r rows'. db_createAttendanceRecord k record rows = Inr (r, rows') \<longrightarrow>
      status r = ''active'' \<and> clockOutTime r = None \<and> totalHours r = None \<and> r \<in> set rows')"
  by (auto simp: createAttendanceRecord_def db_createAttendanceRecord_def Let_def
      getAttendanceRecord_def map_get_map_set split: if_splits)

theorem createAttendanceRecord_status_overwritten_witness:
  "ins_status late_insert = Some ''late'' \<and>
   createAttendanceRecord ''u1'' late_insert [] =
     (session ''u1'' ''bob'' ''active'', [(''u1'', session ''u1'' ''bob'' ''active'')]) \<and>
   db_createAttendanceRecord ''u1'' late_insert [] =
     Inr (session ''u1'' ''bob'' ''active'', [session ''u1'' ''bob'' ''active'']) \<and>
   status (session ''u1'' ''bob'' ''active'') = ''active'' \<and>
   clockOutTime (session ''u1'' ''bob'' ''active'') = None \<and>
   totalHours (session ''u1'' ''bob'' ''active'') = None"
  using createAttendanceRecord_status_overwritten [of "''u1''" late_insert "[]" "[]"]
  by (simp add: createAttendanceRecord_def db_createAttendanceRecord_def late_insert_def
      session_def Let_def)

text \<open>
  C1. A clock-in is to be stored as \<open>late\<close> when its instant is after the cutoff. At
  10:00:00 the handler does compute \<open>late\<close>, and the session it stores and returns
  has status \<open>active\<close>.
\<close>

theorem clockIn_after_cutoff_persists_active:
  "determineStatus (LocalTZA env_10am) (now env_10am) = ''late'' \<and>
   clockIn env_10am ''bob'' ''Other'' [] =
     (Inr (session ''u1'' ''bob'' ''active''), [(''u1'', session ''u1'' ''bob'' ''active'')]) \<and>
   status (session ''u1'' ''bob'' ''active'') = ''active''"
  by (simp add: env_10am_def determineStatus_10am clockIn_def clockInSchema_parse_def
      departments_Other getActiveAttendanceRecord_def map_values_def
      createAttendanceRecord_def session_def Let_def)

section \<open>Lateness\<close>

lemma div_mod_nested:
  fixes L :: int
  assumes "0 < b" "0 \<le> c"
  shows "L div b mod c = (L mod (b * c)) div b"
proof -
  have "L mod (b * c) = b * (L div b mod c) + L mod b"
    using assms by (simp add: zmod_zmult2_eq)
  moreover have "(b * (L div b mod c) + L mod b) div b = L div b mod c"
    using assms by simp
  ultimately show ?thesis by simp
qed

lemma late_iff_minute_of_day:
  fixes a :: int
  assumes "0 \<le> a"
  shows "(a div 60 > 9 \<or> (a div 60 = 9 \<and> a mod 60 > 15)) \<longleftrightarrow> 556 \<le> a"
  using assms by presburger

lemma hour_minute_cutoff:
  fixes L :: int
  shows "(L div 3600000 mod 24 > 9 \<or> (L div 3600000 mod 24 = 9 \<and> L div 60000 mod 60 > 15))
     \<longleftrightarrow> 33360000 \<le> L mod 86400000"
proof -
  define d where "d = L mod 86400000"
  define a where "a = d div 60000"
  have d: "0 \<le> d" "d < 86400000" by (simp_all add: d_def)
  have a: "0 \<le> a" using d by (simp add: a_def)
  have h: "L div 3600000 mod 24 = d div 3600000"
    using div_mod_nested[of 3600000 24 L] by (simp add: d_def)
  have "d div 3600000 = d div (60000 * 60)" by simp
  also have "\<dots> = a div 60" unfolding a_def by (rule zdiv_zmult2_eq) simp
  finally have h': "L div 3600000 mod 24 = a div 60" using h by simp
  have "L div 60000 mod 1440 = a"
    using div_mod_nested[of 60000 1440 L] by (simp add: d_def a_def)
  then have "a mod 60 = L div 60000 mod 1440 mod 60" by simp
  also have "\<dots> = L div 60000 mod 60" by (rule mod_mod_cancel) simp
  finally have m: "L div 60000 mod 60 = a mod 60" by simp
  have "d = 60000 * a + d mod 60000" by (simp add: a_def)
  moreover have "0 \<le> d mod 60000" "d mod 60000 < 60000" by simp_all
  ultimately have "556 \<le> a \<longleftrightarrow> 33360000 \<le> d" by linarith
  with late_iff_minute_of_day[OF a] show ?thesis
    unfolding h' m d_def[symmetric] by simp
qed

text \<open>
  C2, as stated, has a clock-in at 09:15:01 classified \<open>late\<close>. The handler reads
  hours and minutes only: one second after 09:15:00 the status is still \<open>active\<close>.
\<close>

theorem determineStatus_one_second_after_cutoff:
  "determineStatus UTC (9 * 3600000 + 15 * 60000 + 1000) = ''active''"
  by (simp add: determineStatus_def getHours_def getMinutes_def UTC_def)

text \<open>
  C2, amended. The status is \<open>late\<close> exactly when the local hour is above 9, or is 9
  with the minute above 15, and \<open>active\<close> otherwise; seconds and milliseconds are not
  read. So the cutoff is the start of minute 09:16 of the local day: every instant
  from 09:00:00 to 09:15:59.999 is \<open>active\<close>, and 09:16:00 is the first \<open>late\<close> one.
\<close>

theorem determineStatus_minute_cutoff:
  "(determineStatus tza t = ''late'' \<longleftrightarrow>
      getHours tza t > 9 \<or> (getHours tza t = 9 \<and> getMinutes tza t > 15)) \<and>
   (determineStatus tza t = ''active'' \<longleftrightarrow>
      \<not> (getHours tza t > 9 \<or> (getHours tza t = 9 \<and> getMinutes tza t > 15))) \<and>
   determineStatus tza t =
     (if 9 * 3600000 + 16 * 60000 \<le> (t + tza t) mod 86400000 then ''late'' else ''active'')"
proof -
  have "determineStatus tza t =
     (if 33360000 \<le> (t + tza t) mod 86400000 then ''late'' else ''active'')"
    unfolding determineStatus_def getHours_def getMinutes_def Let_def
    using hour_minute_cutoff[of "t + tza t"] by simp
  moreover have "determineStatus tza t = ''late'' \<longleftrightarrow>
      getHours tza t > 9 \<or> (getHours tza t = 9 \<and> getMinutes tza t > 15)"
    by (simp add: determineStatus_def Let_def)
  moreover have "determineStatus tza t = ''active'' \<longleftrightarrow>
      \<not> (getHours tza t > 9 \<or> (getHours tza t = 9 \<and> getMinutes tza t > 15))"
    by (simp add: determineStatus_def Let_def)
  ultimately show ?thesis by simp
qed

theorem determineStatus_minute_cutoff_witness:
  "determineStatus UTC (9 * 3600000 + 15 * 60000) = ''active'' \<and>
   determineStatus UTC (9 * 3600000 + 15 * 60000 + 59999) = ''active'' \<and>
   determineStatus UTC (9 * 3600000 + 16 * 60000) = ''late'' \<and>
   determineStatus UTC (9 * 3600000) = ''active''"
  using determineStatus_minute_cutoff [of UTC "9 * 3600000 + 15 * 60000"]
    determineStatus_minute_cutoff [of UTC "9 * 3600000 + 15 * 60000 + 59999"]
    determineStatus_minute_cutoff [of UTC "9 * 3600000 + 16 * 60000"]
    determineStatus_minute_cutoff [of UTC "9 * 3600000"]
  by (simp add: UTC_def)

section \<open>Validation\<close>

text \<open>
  C9, as stated, rejects a name that is empty after trimming. The schema only asks for
  one character: a name of one space passes, and the session is created.
\<close>

theorem blank_name_accepted:
  "spec_trim '' '' = [] \<and>
   clockIn env_10am '' '' ''Other'' [] =
     (Inr (session ''u1'' '' '' ''active''), [(''u1'', session ''u1'' '' '' ''active'')])"
  by (simp add: spec_trim_def env_10am_def clockIn_def clockInSchema_parse_def
      departments_Other getActiveAttendanceRecord_def map_values_def
      createAttendanceRecord_def session_def Let_def)

text \<open>
  C9, amended. A clock-in fails with a validation error exactly when its name is the
  empty string or its department is not one of the ten of the enumeration; a clock-out
  does exactly when its record id is the empty string. The store is left as it was.
\<close>

theorem validation_failures:
  "length departments = 10 \<and> distinct departments \<and>
   ((\<exists>issue. fst (clockIn env name dept s) = Inl (ValidationError issue)) \<longleftrightarrow>
      name = [] \<or> dept \<notin> set departments) \<and>
   ((\<exists>issue. fst (clockOut t recordId s) = Inl (ValidationError issue)) \<longleftrightarrow> recordId = []) \<and>
   (name = [] \<or> dept \<notin> set departments \<longrightarrow>
      (\<exists>issue. clockIn env name dept s = (Inl (ValidationError issue), s))) \<and>
   (recordId = [] \<longrightarrow>
      (\<exists>issue. clockOut t recordId s = (Inl (ValidationError issue), s)))"
proof (intro conjI)
  show "length departments = 10" "distinct departments"
    by (simp_all add: departments_def)
  show "(\<exists>issue. fst (clockIn env name dept s) = Inl (ValidationError issue)) \<longleftrightarrow>
      name = [] \<or> dept \<notin> set departments"
    by (auto simp: clockIn_def clockInSchema_parse_def createAttendanceRecord_def Let_def
        split: option.splits)
  show "(\<exists>issue. fst (clockOut t recordId s) = Inl (ValidationError issue)) \<longleftrightarrow> recordId = []"
    by (auto simp: clockOut_def clockOutSchema_parse_def Let_def
        split: option.splits prod.splits)
  show "name = [] \<or> dept \<notin> set departments \<longrightarrow>
      (\<exists>issue. clockIn env name dept s = (Inl (ValidationError issue), s))"
    by (auto simp: clockIn_def clockInSchema_parse_def)
  show "recordId = [] \<longrightarrow>
      (\<exists>issue. clockOut t recordId s = (Inl (ValidationError issue), s))"
    by (auto simp: clockOut_def clockOutSchema_parse_def)
qed

theorem validation_failures_witness:
  "clockIn env_10am '''' ''Other'' [(''u1'', session ''u1'' ''bob'' ''active'')] =
     (Inl (ValidationError (too_small ''Employee name is required'')),
      [(''u1'', session ''u1'' ''bob'' ''active'')]) \<and>
   ''Payroll'' \<notin> set departments \<and>
   clockIn env_10am ''bob'' ''Payroll'' [(''u1'', session ''u1'' ''bob'' ''active'')] =
     (Inl (ValidationError (invalid_enum_value ''Payroll'')),
      [(''u1'', session ''u1'' ''bob'' ''active'')]) \<and>
   clockOut 1704103200000 '''' [(''u1'', session ''u1'' ''bob'' ''active'')] =
     (Inl (ValidationError (too_small ''Record ID is required'')),
      [(''u1'', session ''u1'' ''bob'' ''active'')])"
  using validation_failures [where name = "''''" and dept = "''Other''" and env = env_10am
      and s = "[(''u1'', session ''u1'' ''bob'' ''active'')]" and recordId = "''''"
      and t = 1704103200000]
    validation_failures [where name = "''bob''" and dept = "''Payroll''" and env = env_10am
      and s = "[(''u1'', session ''u1'' ''bob'' ''active'')]" and recordId = "''''"
      and t = 1704103200000]
  by (simp add: clockIn_def clockInSchema_parse_def clockOut_def clockOutSchema_parse_def
      departments_def)

section \<open>The store invariant\<close>

lemma length_filter_map_set:
  "length (filter P (map_values (map_set k v m))) \<le>
     length (filter P (map_values m)) + (if P v then 1 else 0)"
  by (induction m) (auto simp: map_values_def)

lemma store_inv_map_set:
  assumes "store_inv s" "id' v = k"
    and "(status v = ''active'' \<and> clockOutTime v = None \<and> totalHours v = None \<and>
          getActiveAttendanceRecord s (employeeName v) (date v) = None) \<or>
         (status v = ''completed'' \<and> clockOutTime v \<noteq> None \<and> totalHours v \<noteq> None)"
  shows "store_inv (map_set k v s)"
proof -
  have wf: "wf_store (map_set k v s)"
    using assms(1,2) by (simp add: store_inv_def wf_store_map_set)
  have st: "\<forall>r \<in> set (map_values (map_set k v s)).
         (status r = ''active'' \<and> clockOutTime r = None \<and> totalHours r = None) \<or>
         (status r = ''completed'' \<and> clockOutTime r \<noteq> None \<and> totalHours r \<noteq> None)"
    using assms(1,3) set_values_map_set[of k v s] unfolding store_inv_def by blast
  have un: "length (filter (\<lambda>r. employeeName r = name \<and> date r = day \<and> status r = ''active'')
                   (map_values (map_set k v s))) \<le> 1" for name day
  proof -
    let ?P = "\<lambda>r. employeeName r = name \<and> date r = day \<and> status r = ''active''"
    have old: "length (filter ?P (map_values s)) \<le> 1"
      using assms(1) unfolding store_inv_def by blast
    show ?thesis
    proof (cases "?P v")
      case True
      then have "getActiveAttendanceRecord s name day = None" using assms(3) by auto
      then have "filter ?P (map_values s) = []"
        unfolding getActiveAttendanceRecord_def by (auto simp: find_None_iff filter_empty_conv)
      with length_filter_map_set[of ?P k v s] True show ?thesis by simp
    next
      case False
      with length_filter_map_set[of ?P k v s] old show ?thesis by simp
    qed
  qed
  show ?thesis unfolding store_inv_def using wf st un by blast
qed

lemma store_inv_examples:
  "store_inv []"
  "store_inv [(''u1'', session ''u1'' ''bob'' ''active'')]"
  "store_inv [(''u1'', closed_session ''u1'' ''bob'')]"
  by (simp_all add: store_inv_def wf_store_def map_values_def session_def closed_session_def)

lemma store_inv_clockIn:
  assumes inv: "store_inv s"
  shows "store_inv (snd (clockIn env name dept s))"
proof (cases "clockIn env name dept s")
  case (Pair res s1)
  show ?thesis
  proof (cases res)
    case (Inl e)
    with Pair have "s1 = s"
      by (auto simp: clockIn_def clockInSchema_parse_def createAttendanceRecord_def Let_def
          split: if_splits option.splits)
    with Pair inv show ?thesis by simp
  next
    case (Inr r)
    note c = clockIn_success[OF Pair[unfolded Inr]]
    have "store_inv (map_set (uuid env) r s)"
      using inv c by (intro store_inv_map_set) (auto)
    with c Pair show ?thesis by simp
  qed
qed

lemma store_inv_clockOut:
  assumes inv: "store_inv s"
  shows "store_inv (snd (clockOut t recordId s))"
proof (cases "clockOut t recordId s")
  case (Pair res s1)
  show ?thesis
  proof (cases res)
    case (Inl e)
    with Pair have "s1 = s"
      by (auto simp: clockOut_def clockOutSchema_parse_def updateAttendanceRecord_def Let_def
          split: if_splits option.splits prod.splits)
    with Pair inv show ?thesis by simp
  next
    case (Inr u)
    from clockOut_success[OF Pair[unfolded Inr]] obtain r where
      rid: "recordId \<noteq> []" and r: "getAttendanceRecord s recordId = Some r"
      and op: "clockOutTime r = None" by blast
    have wf: "wf_store s" using inv by (simp add: store_inv_def)
    have idr: "id' r = recordId" using wf r by (rule wf_store_get)
    define c where "c = r \<lparr> clockOutTime := Some t,
                  totalHours := Some (calculateHours (clockInTime r) t),
                  status := ''completed'' \<rparr>"
    have "clockOut t recordId s = (Inr (Some c), map_set recordId c s)"
      unfolding c_def using rid r op idr by (rule clockOut_open)
    with Pair have s1: "s1 = map_set recordId c s" by simp
    have "store_inv (map_set recordId c s)"
      using inv by (rule store_inv_map_set) (simp_all add: c_def idr)
    with s1 Pair show ?thesis by simp
  qed
qed

lemma served_snoc: "served (requests @ [q]) = post (served requests) q"
  by (simp add: served_def)

lemma store_inv_served: "store_inv (served requests)"
proof (induction requests rule: rev_induct)
  case Nil
  show ?case by (simp add: served_def store_inv_examples)
next
  case (snoc q requests)
  then show ?case
    by (cases q) (simp_all add: served_snoc store_inv_clockIn store_inv_clockOut)
qed


text \<open>
  X1. The empty store satisfies the invariant, and clock-in and clock-out preserve it,
  whatever the request and whether it succeeds or fails: the store the server holds
  after any sequence of requests satisfies it.
\<close>

theorem store_inv_preserved:
  "store_inv [] \<and>
   (store_inv s \<longrightarrow> store_inv (snd (clockIn env name dept s)) \<and>
                    store_inv (snd (clockOut t recordId s))) \<and>
   store_inv (served requests)"
  using store_inv_examples(1) store_inv_clockIn store_inv_clockOut store_inv_served by blast

theorem store_inv_preserved_witness:
  "store_inv [(''u1'', session ''u1'' ''bob'' ''active'')] \<and>
   store_inv [(''u1'', closed_session ''u1'' ''bob'')]"
proof -
  have a: "clockIn env_10am ''bob'' ''Other'' [] =
     (Inr (session ''u1'' ''bob'' ''active''), [(''u1'', session ''u1'' ''bob'' ''active'')])"
    by (simp add: env_10am_def determineStatus_10am clockIn_def clockInSchema_parse_def
      departments_Other getActiveAttendanceRecord_def map_values_def
      createAttendanceRecord_def session_def Let_def)
  have b: "store_inv [(''u1'', session ''u1'' ''bob'' ''active'')]"
    using store_inv_preserved [of "[]" env_10am "''bob''" "''Other''" 0 "''''" "[]"] a by simp
  show ?thesis
    using b store_inv_preserved [of "[(''u1'', session ''u1'' ''bob'' ''active'')]" env_10am
        "''bob''" "''Other''" 1704112200000 "''u1''" "[]"] clockOut_example
    by simp
qed

section \<open>Duplicate clock-in\<close>







section \<open>Clock-out\<close>

text \<open>
  C4. For a request that passes validation (a non-empty record id): clock-out fails with
  the not-found error when no session has the id, and with the already-closed error when
  the session's clock-out time is present; both leave the store as it was. On an open
  session clock-out succeeds, and a second clock-out on the same record then fails with
  the already-closed error.
\<close>

theorem clockOut_failures:
  assumes "recordId \<noteq> []"
  shows "(getAttendanceRecord s recordId = None \<longrightarrow>
            clockOut t recordId s = (Inl NotFoundError, s)) \<and>
         (\<forall>r. getAttendanceRecord s recordId = Some r \<and> clockOutTime r \<noteq> None \<longrightarrow>
            clockOut t recordId s = (Inl AlreadyClosedError, s)) \<and>
         (\<forall>r. wf_store s \<and> getAttendanceRecord s recordId = Some r \<and> clockOutTime r = None \<longrightarrow>
            (\<exists>u s'. clockOut t recordId s = (Inr (Some u), s') \<and>
                    clockOut t' recordId s' = (Inl AlreadyClosedError, s')))"
proof (intro conjI allI impI)
  assume "getAttendanceRecord s recordId = None"
  then show "clockOut t recordId s = (Inl NotFoundError, s)"
    using assms by (simp add: clockOut_def clockOutSchema_parse_def)
next
  fix r assume "getAttendanceRecord s recordId = Some r \<and> clockOutTime r \<noteq> None"
  then show "clockOut t recordId s = (Inl AlreadyClosedError, s)"
    using assms by (auto simp: clockOut_def clockOutSchema_parse_def)
next
  fix r assume a: "wf_store s \<and> getAttendanceRecord s recordId = Some r \<and> clockOutTime r = None"
  define u where "u = r \<lparr> clockOutTime := Some t,
                    totalHours := Some (calculateHours (clockInTime r) t),
                    status := ''completed'' \<rparr>"
  have idr: "id' r = recordId" using a wf_store_get by blast
  have first: "clockOut t recordId s = (Inr (Some u), map_set recordId u s)"
    unfolding u_def using assms a idr by (intro clockOut_open) simp_all
  have "getAttendanceRecord (map_set recordId u s) recordId = Some u"
    by (simp add: getAttendanceRecord_def map_get_map_set)
  moreover have "clockOutTime u \<noteq> None" by (simp add: u_def)
  ultimately have "clockOut t' recordId (map_set recordId u s) =
      (Inl AlreadyClosedError, map_set recordId u s)"
    using assms by (auto simp: clockOut_def clockOutSchema_parse_def)
  with first show "\<exists>u s'. clockOut t recordId s = (Inr (Some u), s') \<and>
                    clockOut t' recordId s' = (Inl AlreadyClosedError, s')"
    by blast
qed

theorem clockOut_failures_witness:
  "clockOut 1704112200000 ''zz'' [(''u1'', session ''u1'' ''bob'' ''active'')] =
     (Inl NotFoundError, [(''u1'', session ''u1'' ''bob'' ''active'')]) \<and>
   clockOut 1704112200000 ''u1'' [(''u1'', session ''u1'' ''bob'' ''active'')] =
     (Inr (Some (closed_session ''u1'' ''bob'')), [(''u1'', closed_session ''u1'' ''bob'')]) \<and>
   clockOut 1704112300000 ''u1'' [(''u1'', closed_session ''u1'' ''bob'')] =
     (Inl AlreadyClosedError, [(''u1'', closed_session ''u1'' ''bob'')])"
  using clockOut_failures [of "''zz''" "[(''u1'', session ''u1'' ''bob'' ''active'')]" 1704112200000 1704112300000]
    clockOut_failures [of "''u1''" "[(''u1'', session ''u1'' ''bob'' ''active'')]" 1704112200000 1704112300000]
    clockOut_failures [of "''u1''" "[(''u1'', closed_session ''u1'' ''bob'')]" 1704112300000 1704112300000]
    clockOut_example wf_store_example
  by (simp add: getAttendanceRecord_def map_get_def session_def closed_session_def)

text \<open>
  C5. A successful clock-out stores and returns the session with status \<open>completed\<close>,
  the clock-out time, and the total hours \<open>calculateHours\<close> computes from the two
  times. For times at most \<open>2^51\<close> ms apart that number is the binary64 value nearest
  to \<open>m / 100\<close> for an integer \<open>m\<close>, with \<open>m / 100\<close> within half a hundredth of the
  elapsed hours: the hours rounded to two decimals. Two hours and thirty minutes after
  the clock-in it is \<open>2.5\<close>.
\<close>

theorem clockOut_totalHours:
  assumes "wf_store s" and "clockOut t recordId s = (Inr u, s')"
  shows "\<exists>r c. getAttendanceRecord s recordId = Some r \<and> u = Some c \<and>
           getAttendanceRecord s' recordId = Some c \<and>
           status c = ''completed'' \<and> clockOutTime c = Some t \<and>
           totalHours c = Some (calculateHours (clockInTime r) t) \<and>
           (\<bar>t - clockInTime r\<bar> \<le> 2 ^ 51 \<longrightarrow>
              (\<exists>m. totalHours c = Some (Hours (fl64 (of_int m / 100))) \<and>
                   \<bar>of_int m / 100 - of_int (t - clockInTime r) / 3600000\<bar> \<le> (1 / 200 :: rat))) \<and>
           (t = clockInTime r + 9000000 \<longrightarrow> totalHours c = Some (Hours (5 / 2)))"
proof -
  from clockOut_success[OF assms(2)] obtain r where
    rid: "recordId \<noteq> []" and r: "getAttendanceRecord s recordId = Some r"
    and op: "clockOutTime r = None"
    by blast
  define c where "c = r \<lparr> clockOutTime := Some t,
                    totalHours := Some (calculateHours (clockInTime r) t),
                    status := ''completed'' \<rparr>"
  have idr: "id' r = recordId" using assms(1) r by (rule wf_store_get)
  have "clockOut t recordId s = (Inr (Some c), map_set recordId c s)"
    unfolding c_def using rid r op idr by (rule clockOut_open)
  with assms(2) have u: "u = Some c" and s': "s' = map_set recordId c s" by simp_all
  have stored: "getAttendanceRecord s' recordId = Some c"
    by (simp add: s' getAttendanceRecord_def map_get_map_set)
  have fields: "status c = ''completed''" "clockOutTime c = Some t"
    "totalHours c = Some (calculateHours (clockInTime r) t)"
    by (simp_all add: c_def)
  have rounded: "\<exists>m. totalHours c = Some (Hours (fl64 (of_int m / 100))) \<and>
      \<bar>of_int m / 100 - of_int (t - clockInTime r) / 3600000\<bar> \<le> (1 / 200 :: rat)"
    if "\<bar>t - clockInTime r\<bar> \<le> 2 ^ 51"
  proof -
    from calculateHours_rounds[OF that] obtain m where
      m: "calculateHours (clockInTime r) t = Hours (fl64 (of_int m / 100))"
      and near: "\<bar>of_int m - of_int (t - clockInTime r) / 36000\<bar> \<le> (1 / 2 :: rat)"
      by blast
    have eq: "of_int m / 100 - of_int (t - clockInTime r) / (3600000 :: rat) =
        (of_int m - of_int (t - clockInTime r) / 36000) / 100"
      by (simp add: field_simps)
    have "\<bar>of_int m / 100 - of_int (t - clockInTime r) / (3600000 :: rat)\<bar> =
        \<bar>of_int m - of_int (t - clockInTime r) / 36000\<bar> / \<bar>100\<bar>"
      unfolding eq by (rule abs_divide)
    with near have "\<bar>of_int m / 100 - of_int (t - clockInTime r) / (3600000 :: rat)\<bar> \<le> 1 / 200"
      by simp
    with m fields(3) show ?thesis by auto
  qed
  have example: "totalHours c = Some (Hours (5 / 2))" if "t = clockInTime r + 9000000"
    using fields(3) calculateHours_2h30m[of "clockInTime r"] that by simp
  show ?thesis
    using r u stored fields rounded example by blast
qed

theorem clockOut_totalHours_witness:
  "wf_store [(''u1'', session ''u1'' ''bob'' ''active'')] \<and>
   clockInTime (session ''u1'' ''bob'' ''active'') = 1704103200000 \<and>
   clockOut (1704103200000 + 9000000) ''u1'' [(''u1'', session ''u1'' ''bob'' ''active'')] =
     (Inr (Some (closed_session ''u1'' ''bob'')), [(''u1'', closed_session ''u1'' ''bob'')]) \<and>
   status (closed_session ''u1'' ''bob'') = ''completed'' \<and>
   clockOutTime (closed_session ''u1'' ''bob'') = Some (1704103200000 + 9000000) \<and>
   totalHours (closed_session ''u1'' ''bob'') = Some (Hours (5 / 2)) \<and>
   parseFloat (Hours (5 / 2)) = 5 / 2"
  using clockOut_totalHours [of "[(''u1'', session ''u1'' ''bob'' ''active'')]" 1704112200000 "''u1''"
      "Some (closed_session ''u1'' ''bob'')" "[(''u1'', closed_session ''u1'' ''bob'')]"]
    clockOut_example wf_store_example
  by (simp add: session_def closed_session_def)

lemma fl64_29_200: "fl64 (29 / 200) = 5224175567749775 / 2 ^ 55"
  using fl64_I[where x = "29 / 200" and n = 5224175567749775 and e = "-55"]
  by (simp add: power_int_minus)

lemma fl64_29_200_times_100: "fl64 (5224175567749775 / 2 ^ 55 * 100) = 8162774324609023 / 2 ^ 49"
  using fl64_I[where x = "5224175567749775 / 2 ^ 55 * 100" and n = 8162774324609023 and e = "-49"]
  by (simp add: power_int_minus)

lemma round_29_200: "\<lfloor>8162774324609023 / 2 ^ 49 + 1 / 2 :: rat\<rfloor> = 14"
  by (simp add: floor_eq_iff)

lemma calculateHours_522000: "calculateHours 0 522000 = Hours (fl64 (14 / 100))"
proof -
  have s1: "js_sub (of_int 522000) (of_int 0) = 522000"
    using fl64_of_int[of 522000] by (simp add: js_sub_def)
  have "(522000 :: rat) / (1000 * 60 * 60) = 29 / 200" by simp
  then have s2: "js_div 522000 (1000 * 60 * 60) = 5224175567749775 / 2 ^ 55"
    unfolding js_div_def by (simp only: fl64_29_200)
  have s3: "js_mul (5224175567749775 / 2 ^ 55) 100 = 8162774324609023 / 2 ^ 49"
    unfolding js_mul_def by (rule fl64_29_200_times_100)
  have s4: "Math_round (8162774324609023 / 2 ^ 49) = 14"
    unfolding Math_round_def by (simp only: round_29_200 of_int_numeral)
  show ?thesis
    by (simp only: calculateHours_def Let_def s1 s2 s3 s4) (simp only: js_div_def)
qed


lemma fl64_1_200: "fl64 (1 / 200) = 5764607523034235 / 2 ^ 60"
  using fl64_I[where x = "1 / 200" and n = 5764607523034235 and e = "-60"]
  by (simp add: power_int_minus)

lemma fl64_1_200_times_100: "fl64 (5764607523034235 / 2 ^ 60 * 100) = 1 / 2"
  using fl64_I[where x = "5764607523034235 / 2 ^ 60 * 100" and n = 4503599627370496 and e = "-53"]
  by (simp add: power_int_minus)

lemma calculateHours_18000: "calculateHours 0 18000 = Hours (fl64 (1 / 100))"
proof -
  have s1: "js_sub (of_int 18000) (of_int 0) = 18000"
    using fl64_of_int[of 18000] by (simp add: js_sub_def)
  have "(18000 :: rat) / (1000 * 60 * 60) = 1 / 200" by simp
  then have s2: "js_div 18000 (1000 * 60 * 60) = 5764607523034235 / 2 ^ 60"
    unfolding js_div_def by (simp only: fl64_1_200)
  have s3: "js_mul (5764607523034235 / 2 ^ 60) 100 = 1 / 2"
    unfolding js_mul_def by (rule fl64_1_200_times_100)
  have s4: "Math_round (1 / 2) = 1"
    unfolding Math_round_def by simp
  show ?thesis
    by (simp only: calculateHours_def Let_def s1 s2 s3 s4) (simp only: js_div_def)
qed

text \<open>
  X2. A duration that lies halfway between two hundredths of an hour can go either way:
  18 seconds (0.005 h) become 0.01, and 8 minutes 42 seconds (0.145 h) become 0.14.
\<close>

theorem calculateHours_ties:
  "(18000 :: rat) / 3600000 = 5 / 1000 \<and> calculateHours 0 18000 = Hours (fl64 (1 / 100)) \<and>
   (522000 :: rat) / 3600000 = 145 / 1000 \<and> calculateHours 0 522000 = Hours (fl64 (14 / 100))"
  using calculateHours_18000 calculateHours_522000 by simp

section \<open>Listing\<close>

lemma truthy_string_filter:
  "(if truthy_string x then filter (\<lambda>r. Q r (the x)) xs else xs) =
     filter (\<lambda>r. case x of None \<Rightarrow> True | Some d \<Rightarrow> d = [] \<or> Q r d) xs"
  by (cases x) (simp_all add: truthy_string_def)

lemma truthy_number_filter:
  "(if truthy_number x then filter (\<lambda>r. Q r (the x)) xs else xs) =
     filter (\<lambda>r. case x of None \<Rightarrow> True | Some v \<Rightarrow> v = Num 0 \<or> v = NaN \<or> Q r v) xs"
proof (cases x)
  case None
  then show ?thesis by (simp add: truthy_number_def)
next
  case (Some v)
  then show ?thesis by (cases v) (simp_all add: truthy_number_def)
qed

lemma js_lt_not_ge: "js_lt a v \<Longrightarrow> \<not> js_ge a v"
  by (cases v) simp_all

lemma getAttendanceRecordsByFilters_selected:
  "getAttendanceRecordsByFilters s f = sort_desc (filter (selected f) (map_values s))"
proof -
  have "getAttendanceRecordsByFilters s f =
    sort_desc (filter (hours_filter f)
      (filter (\<lambda>r. case f_date f of None \<Rightarrow> True | Some d \<Rightarrow> d = [] \<or> date r = d)
        (filter (\<lambda>r. case f_department f of None \<Rightarrow> True | Some d \<Rightarrow> d = [] \<or> department r = d)
          (filter (\<lambda>r. case f_employeeName f of None \<Rightarrow> True
               | Some n \<Rightarrow> n = [] \<or> includes' (toLowerCase (employeeName r)) (toLowerCase n))
            (map_values s)))))"
    unfolding getAttendanceRecordsByFilters_def Let_def hours_filter_def
    by (simp only:
        truthy_string_filter [where Q = "\<lambda>r n. includes' (toLowerCase (employeeName r)) (toLowerCase n)"]
        truthy_string_filter [where Q = "\<lambda>r d. department r = d"]
        truthy_string_filter [where Q = "\<lambda>r d. date r = d"]
        truthy_number_filter [where Q = "\<lambda>r v. case totalHours r of None \<Rightarrow> False
              | Some text \<Rightarrow> js_ge (parseFloat text) v"])
  also have "\<dots> = sort_desc (filter (selected f) (map_values s))"
    unfolding filter_filter selected_def other_filters_def
    by (rule arg_cong[where f = sort_desc], rule filter_cong) auto
  finally show ?thesis .
qed

text \<open>The name filter folds case, accented letters too: a filter of 0xE9 and
  \<open>mile\<close> finds the session whose name is 0xC9 and \<open>MILE\<close>.\<close>

lemma toLowerCase_example:
  "toLowerCase (CHR 0xC9 # ''MILE'') = CHR 0xE9 # ''mile''"
  "toLowerCase (CHR 0xE9 # ''mile'') = CHR 0xE9 # ''mile''"
  "toLowerCase ''Bob'' = ''bob''"
  by code_simp+

lemma name_filter_example:
  "getAttendanceRecordsByFilters
      [(''u1'', arrived ''u1'' (CHR 0xC9 # ''MILE'') 1704099600000 ''active''),
       (''u2'', arrived ''u2'' ''Bob'' 1704096000000 ''active'')]
      (no_filter \<lparr> f_employeeName := Some (CHR 0xE9 # ''mile'') \<rparr>) =
     [arrived ''u1'' (CHR 0xC9 # ''MILE'') 1704099600000 ''active'']"
  by (simp add: getAttendanceRecordsByFilters_def no_filter_def arrived_def truthy_string_def
      truthy_number_def map_values_def sort_desc_def toLowerCase_example Let_def)

text \<open>
  C6, as stated, excludes every session without total hours once \<open>minHours\<close> is
  supplied. A \<open>minHours\<close> of zero is falsy, and so is \<open>NaN\<close>, which the listing route
  passes for a query text that is no numeral: the filter is skipped, and an open session
  is listed.
\<close>

theorem minHours_zero_keeps_open_sessions:
  "totalHours (arrived ''u1'' ''bob'' 1704099600000 ''active'') = None \<and>
   getAttendanceRecordsByFilters [(''u1'', arrived ''u1'' ''bob'' 1704099600000 ''active'')]
       (no_filter \<lparr> f_minHours := Some (Num 0) \<rparr>) =
     [arrived ''u1'' ''bob'' 1704099600000 ''active''] \<and>
   getAttendanceRecordsByFilters [(''u1'', arrived ''u1'' ''bob'' 1704099600000 ''active'')]
       (no_filter \<lparr> f_minHours := Some NaN \<rparr>) =
     [arrived ''u1'' ''bob'' 1704099600000 ''active'']"
  by (simp add: getAttendanceRecordsByFilters_def no_filter_def arrived_def truthy_string_def
      truthy_number_def map_values_def sort_desc_def Let_def)

text \<open>
  C6, amended. When \<open>minHours\<close> is supplied and is a number other than zero and
  \<open>NaN\<close> (an infinity included), the listing returns exactly the sessions that pass the
  other filter fields and whose total hours are present and at least \<open>minHours\<close>: no
  session without total hours and none with fewer hours is in the result. A
  \<open>minHours\<close> of zero or \<open>NaN\<close> lists what no \<open>minHours\<close> at all lists.
\<close>

theorem minHours_filter:
  assumes "f_minHours f = Some v"
  shows "(v \<noteq> Num 0 \<and> v \<noteq> NaN \<longrightarrow>
           mset (getAttendanceRecordsByFilters s f) =
             mset (filter (\<lambda>r. other_filters f r \<and>
                                (\<exists>h. totalHours r = Some h \<and> js_ge (parseFloat h) v))
                    (map_values s)) \<and>
           (\<forall>r \<in> set (map_values s).
              totalHours r = None \<or> (\<exists>h. totalHours r = Some h \<and> js_lt (parseFloat h) v) \<longrightarrow>
              r \<notin> set (getAttendanceRecordsByFilters s f))) \<and>
         (v = Num 0 \<or> v = NaN \<longrightarrow>
           getAttendanceRecordsByFilters s f =
             getAttendanceRecordsByFilters s (f \<lparr> f_minHours := None \<rparr>))"
proof (intro conjI impI)
  assume v: "v \<noteq> Num 0 \<and> v \<noteq> NaN"
  have sel: "selected f r \<longleftrightarrow>
      other_filters f r \<and> (\<exists>h. totalHours r = Some h \<and> js_ge (parseFloat h) v)" for r
    using assms v by (auto simp: selected_def hours_filter_def split: option.splits)
  have "mset (getAttendanceRecordsByFilters s f) = mset (filter (selected f) (map_values s))"
    by (simp add: getAttendanceRecordsByFilters_selected sort_desc_def)
  then show "mset (getAttendanceRecordsByFilters s f) =
             mset (filter (\<lambda>r. other_filters f r \<and>
                                (\<exists>h. totalHours r = Some h \<and> js_ge (parseFloat h) v))
                    (map_values s))"
    by (simp add: sel cong: filter_cong)
  have "set (getAttendanceRecordsByFilters s f) = {r \<in> set (map_values s). selected f r}"
    by (simp add: getAttendanceRecordsByFilters_selected sort_desc_def)
  then show "\<forall>r \<in> set (map_values s).
              totalHours r = None \<or> (\<exists>h. totalHours r = Some h \<and> js_lt (parseFloat h) v) \<longrightarrow>
              r \<notin> set (getAttendanceRecordsByFilters s f)"
    by (auto simp: sel dest: js_lt_not_ge)
next
  assume "v = Num 0 \<or> v = NaN"
  then have "selected f r = selected (f \<lparr> f_minHours := None \<rparr>) r" for r
    using assms by (auto simp: selected_def hours_filter_def other_filters_def)
  then show "getAttendanceRecordsByFilters s f =
             getAttendanceRecordsByFilters s (f \<lparr> f_minHours := None \<rparr>)"
    by (simp add: getAttendanceRecordsByFilters_selected cong: filter_cong)
qed

text \<open>The worked case: of an open session, one of four hours and one of eight, a
  \<open>minHours\<close> of 6 lists the last only, \<open>-Infinity\<close> lists the two that are closed,
  and \<open>Infinity\<close> lists none. With a name filter beside it, a \<open>minHours\<close> of 6
  lists the eight-hour sessions whose name holds the filter's text in any case.\<close>

theorem minHours_filter_witness:
  "getAttendanceRecordsByFilters
      [(''u1'', arrived ''u1'' ''ann'' 1704099600000 ''active''),
       (''u2'', worked ''u2'' ''bob'' 1704096000000 4),
       (''u3'', worked ''u3'' ''cy'' 1704092400000 8)]
      (no_filter \<lparr> f_minHours := Some (Num 6) \<rparr>) =
     [worked ''u3'' ''cy'' 1704092400000 8] \<and>
   getAttendanceRecordsByFilters
      [(''u1'', arrived ''u1'' ''ann'' 1704099600000 ''active''),
       (''u2'', worked ''u2'' ''bob'' 1704096000000 4),
       (''u3'', worked ''u3'' ''cy'' 1704092400000 8)]
      (no_filter \<lparr> f_minHours := Some MinusInfinity \<rparr>) =
     [worked ''u2'' ''bob'' 1704096000000 4, worked ''u3'' ''cy'' 1704092400000 8] \<and>
   getAttendanceRecordsByFilters
      [(''u1'', arrived ''u1'' ''ann'' 1704099600000 ''active''),
       (''u2'', worked ''u2'' ''bob'' 1704096000000 4),
       (''u3'', worked ''u3'' ''cy'' 1704092400000 8)]
      (no_filter \<lparr> f_minHours := Some Infinity \<rparr>) = [] \<and>
   getAttendanceRecordsByFilters
      [(''u1'', worked ''u1'' (CHR 0xC9 # ''MILE'') 1704099600000 8),
       (''u2'', worked ''u2'' ''Bob'' 1704096000000 8),
       (''u3'', worked ''u3'' (CHR 0xE9 # ''mile'') 1704092400000 4)]
      (no_filter \<lparr> f_employeeName := Some (CHR 0xE9 # ''mile''), f_minHours := Some (Num 6) \<rparr>) =
     [worked ''u1'' (CHR 0xC9 # ''MILE'') 1704099600000 8]"
  using minHours_filter [of "no_filter \<lparr> f_minHours := Some (Num 6) \<rparr>" "Num 6"
      "[(''u1'', arrived ''u1'' ''ann'' 1704099600000 ''active''),
       (''u2'', worked ''u2'' ''bob'' 1704096000000 4),
       (''u3'', worked ''u3'' ''cy'' 1704092400000 8)]"]
    minHours_filter [of "no_filter \<lparr> f_employeeName := Some (CHR 0xE9 # ''mile''),
        f_minHours := Some (Num 6) \<rparr>" "Num 6"
      "[(''u1'', worked ''u1'' (CHR 0xC9 # ''MILE'') 1704099600000 8),
       (''u2'', worked ''u2'' ''Bob'' 1704096000000 8),
       (''u3'', worked ''u3'' (CHR 0xE9 # ''mile'') 1704092400000 4)]"]
  by (simp add: getAttendanceRecordsByFilters_def no_filter_def arrived_def worked_def
      truthy_string_def truthy_number_def map_values_def sort_desc_def toLowerCase_example Let_def)

text \<open>
  C7. The listing is in descending order of clock-in time, and the sessions of one
  clock-in time come in the order of the store, which is the order of insertion. Sessions
  clocked in at 09:00, 10:00 and 08:00 come back as 10:00, 09:00, 08:00.
\<close>

theorem list_order:
  "sorted_wrt (\<lambda>a b. clockInTime a \<ge> clockInTime b) (getAttendanceRecordsByFilters s f) \<and>
   (\<forall>t. filter (\<lambda>r. clockInTime r = t) (getAttendanceRecordsByFilters s f) =
        filter (\<lambda>r. clockInTime r = t) (filter (selected f) (map_values s)))"
proof -
  let ?xs = "filter (selected f) (map_values s)"
  have "sorted (map (\<lambda>r. - clockInTime r) (sort_key (\<lambda>r. - clockInTime r) ?xs))"
    by (rule sorted_sort_key)
  then have "sorted_wrt (\<lambda>a b. - clockInTime a \<le> - clockInTime b) (sort_key (\<lambda>r. - clockInTime r) ?xs)"
    by (simp add: sorted_wrt_map)
  then have a: "sorted_wrt (\<lambda>a b. clockInTime a \<ge> clockInTime b) (sort_desc ?xs)"
    by (simp add: sort_desc_def)
  have b: "filter (\<lambda>r. clockInTime r = t) (sort_desc ?xs) = filter (\<lambda>r. clockInTime r = t) ?xs" for t
  proof -
    have "filter (\<lambda>r. - clockInTime r = - t) (sort_key (\<lambda>r. - clockInTime r) ?xs) =
        filter (\<lambda>r. - clockInTime r = - t) ?xs"
      by (rule sort_key_stable)
    then show ?thesis by (simp add: sort_desc_def)
  qed
  show ?thesis
    using a b by (simp add: getAttendanceRecordsByFilters_selected)
qed

theorem list_order_witness:
  "getAttendanceRecordsByFilters
      [(''u1'', arrived ''u1'' ''ann'' 1704099600000 ''active''),
       (''u2'', arrived ''u2'' ''bob'' 1704103200000 ''active''),
       (''u3'', arrived ''u3'' ''cy'' 1704096000000 ''active''),
       (''u4'', arrived ''u4'' ''dee'' 1704103200000 ''active'')]
      no_filter =
     [arrived ''u2'' ''bob'' 1704103200000 ''active'',
      arrived ''u4'' ''dee'' 1704103200000 ''active'',
      arrived ''u1'' ''ann'' 1704099600000 ''active'',
      arrived ''u3'' ''cy'' 1704096000000 ''active'']"
  using list_order [of "[(''u1'', arrived ''u1'' ''ann'' 1704099600000 ''active''),
       (''u2'', arrived ''u2'' ''bob'' 1704103200000 ''active''),
       (''u3'', arrived ''u3'' ''cy'' 1704096000000 ''active''),
       (''u4'', arrived ''u4'' ''dee'' 1704103200000 ''active'')]" no_filter]
  by (simp add: getAttendanceRecordsByFilters_def no_filter_def arrived_def
      truthy_string_def truthy_number_def map_values_def sort_desc_def Let_def)

section \<open>Statistics\<close>

lemma foldl_completed:
  assumes "\<forall>r \<in> set cs. totalHours r \<noteq> None"
  shows "foldl (\<lambda>sum record.
            js_add sum (case totalHours record of None \<Rightarrow> 0 | Some text \<Rightarrow> parseFloat text)) a cs =
         foldl js_add a (map (\<lambda>r. parseFloat (the (totalHours r))) cs)"
  using assms by (induction cs arbitrary: a) auto

lemma avgHoursToday_eq:
  "avgHoursToday (getAttendanceStatistics day s) =
     js_div (Math_round (js_mul
       (if hoursToday day s \<noteq> []
        then js_div (foldl js_add 0 (hoursToday day s)) (of_nat (length (hoursToday day s)))
        else 0) 10)) 10"
proof -
  define cs where "cs = filter (\<lambda>r. totalHours r \<noteq> None) (todayRecords day s)"
  have h: "hoursToday day s = map (\<lambda>r. parseFloat (the (totalHours r))) cs"
    by (simp add: hoursToday_def cs_def)
  have "\<forall>r \<in> set cs. totalHours r \<noteq> None" by (simp add: cs_def)
  then have f: "foldl (\<lambda>sum record.
            js_add sum (case totalHours record of None \<Rightarrow> 0 | Some text \<Rightarrow> parseFloat text)) 0 cs =
         foldl js_add 0 (hoursToday day s)"
    unfolding h by (rule foldl_completed)
  have "avgHoursToday (getAttendanceStatistics day s) =
     js_div (Math_round (js_mul
       (if length cs > 0
        then js_div (foldl (\<lambda>sum record.
            js_add sum (case totalHours record of None \<Rightarrow> 0 | Some text \<Rightarrow> parseFloat text)) 0 cs)
               (of_nat (length cs))
        else 0) 10)) 10"
    by (simp only: getAttendanceStatistics_def Let_def cs_def todayRecords_def
        Statistics.select_convs)
  then show ?thesis
    unfolding f by (simp add: h)
qed

lemma fl64_zero: "fl64 0 = 0"
  by (simp add: fl64_def)

lemma avg_none: "hoursToday day s = [] \<Longrightarrow> avgHoursToday (getAttendanceStatistics day s) = 0"
proof -
  have "\<lfloor>1 / 2 :: rat\<rfloor> = 0" by linarith
  then show "hoursToday day s = [] \<Longrightarrow> avgHoursToday (getAttendanceStatistics day s) = 0"
    by (simp add: avgHoursToday_eq js_div_def js_mul_def Math_round_def fl64_zero)
qed

lemma sum_error:
  fixes ms :: "int list"
  assumes "length ms \<le> 10000" "\<forall>m \<in> set ms. \<bar>m\<bar> \<le> 1000000"
  shows "\<bar>foldl js_add 0 (map (\<lambda>m. fl64 (of_int m / 100)) ms) - of_int (sum_list ms) / 100\<bar>
           \<le> of_nat (length ms) * (200000000 / 2 ^ 53) \<and>
         \<bar>of_int (sum_list ms) / 100 :: rat\<bar> \<le> of_nat (length ms) * 10000"
  using assms
proof (induction ms rule: rev_induct)
  case Nil
  show ?case by simp
next
  case (snoc x xs)
  define J :: rat where "J = of_nat (length xs)"
  define S where "S = foldl js_add 0 (map (\<lambda>m. fl64 (of_int m / 100)) xs)"
  define T :: rat where "T = of_int (sum_list xs) / 100"
  define t :: rat where "t = of_int x / 100"
  define v where "v = fl64 t"
  have len: "length xs \<le> 10000" "\<forall>m \<in> set xs. \<bar>m\<bar> \<le> 1000000" using snoc.prems by simp_all
  from snoc.IH[OF len] have ih: "\<bar>S - T\<bar> \<le> J * (200000000 / 2 ^ 53)" "\<bar>T\<bar> \<le> J * 10000"
    by (simp_all add: S_def T_def J_def)
  have "length xs + 1 \<le> 10000" using snoc.prems by simp
  then have "(of_nat (length xs + 1) :: rat) \<le> of_nat 10000" by (simp only: of_nat_le_iff)
  then have J: "J + 1 \<le> 10000" "0 \<le> J" by (simp_all add: J_def)
  have "\<bar>x\<bar> \<le> 1000000" using snoc.prems by simp
  then have "(of_int \<bar>x\<bar> :: rat) \<le> of_int 1000000" by (simp only: of_int_le_iff)
  then have t: "\<bar>t\<bar> \<le> 10000" by (simp add: t_def)
  have v: "\<bar>v - t\<bar> \<le> \<bar>t\<bar> / 2 ^ 53" unfolding v_def by (rule fl64_error)
  have r: "\<bar>fl64 (S + v) - (S + v)\<bar> \<le> \<bar>S + v\<bar> / 2 ^ 53" by (rule fl64_error)
  have step: "foldl js_add 0 (map (\<lambda>m. fl64 (of_int m / 100)) (xs @ [x])) = fl64 (S + v)"
    by (simp add: S_def v_def t_def js_add_def)
  have tot: "of_int (sum_list (xs @ [x])) / 100 = T + t"
    by (simp add: T_def t_def add_divide_distrib)
  have len': "(of_nat (length (xs @ [x])) :: rat) = J + 1" by (simp add: J_def)
  define eS where "eS = \<bar>S - T\<bar>"
  define ev where "ev = \<bar>v - t\<bar>"
  define er where "er = \<bar>fl64 (S + v) - (S + v)\<bar>"
  define nT where "nT = \<bar>T\<bar>"
  define nt where "nt = \<bar>t\<bar>"
  define nSv where "nSv = \<bar>S + v\<bar>"
  have tri1: "nSv \<le> nT + eS + nt + ev"
  proof -
    have "S + v = T + (S - T) + t + (v - t)" by simp
    then have "\<bar>S + v\<bar> = \<bar>T + (S - T) + t + (v - t)\<bar>" by simp
    also have "\<dots> \<le> \<bar>T + (S - T) + t\<bar> + \<bar>v - t\<bar>" by (rule abs_triangle_ineq)
    also have "\<bar>T + (S - T) + t\<bar> \<le> \<bar>T + (S - T)\<bar> + \<bar>t\<bar>" by (rule abs_triangle_ineq)
    also have "\<bar>T + (S - T)\<bar> \<le> \<bar>T\<bar> + \<bar>S - T\<bar>" by (rule abs_triangle_ineq)
    finally show ?thesis by (simp add: nSv_def nT_def eS_def nt_def ev_def)
  qed
  have tri2: "\<bar>fl64 (S + v) - (T + t)\<bar> \<le> er + eS + ev"
  proof -
    have "fl64 (S + v) - (T + t) = (fl64 (S + v) - (S + v)) + (S - T) + (v - t)" by simp
    then have "\<bar>fl64 (S + v) - (T + t)\<bar> = \<bar>(fl64 (S + v) - (S + v)) + (S - T) + (v - t)\<bar>"
      by simp
    also have "\<dots> \<le> \<bar>(fl64 (S + v) - (S + v)) + (S - T)\<bar> + \<bar>v - t\<bar>"
      by (rule abs_triangle_ineq)
    also have "\<bar>(fl64 (S + v) - (S + v)) + (S - T)\<bar> \<le> \<bar>fl64 (S + v) - (S + v)\<bar> + \<bar>S - T\<bar>"
      by (rule abs_triangle_ineq)
    finally show ?thesis by (simp add: er_def eS_def ev_def)
  qed
  have tri3: "\<bar>T + t\<bar> \<le> nT + nt"
    unfolding nT_def nt_def by (rule abs_triangle_ineq)
  have b1: "eS \<le> J * (200000000 / 2 ^ 53)" using ih(1) by (simp add: eS_def)
  have b2: "nT \<le> J * 10000" using ih(2) by (simp add: nT_def)
  have b3: "nt \<le> 10000" using t by (simp add: nt_def)
  have b4: "ev \<le> nt / 2 ^ 53" using v by (simp add: ev_def nt_def)
  have b5: "er \<le> nSv / 2 ^ 53" using r by (simp add: er_def nSv_def)
  have c1: "J * (200000000 / 2 ^ 53) \<le> 1"
  proof -
    have "J * (200000000 / 2 ^ 53) \<le> 10000 * (200000000 / 2 ^ 53)"
      using J by (intro mult_right_mono) simp_all
    also have "\<dots> \<le> (1::rat)" by simp
    finally show ?thesis .
  qed
  have c2: "J * 10000 \<le> 99990000" using J by simp
  have c3: "nt / 2 ^ 53 \<le> 1" using b3 by simp
  have "nSv \<le> 100000002" using tri1 b1 b2 b3 b4 c1 c2 c3 by linarith
  then have "nSv / 2 ^ 53 \<le> 100000002 / 2 ^ 53" by (rule divide_right_mono) simp
  then have c4: "er \<le> 100000002 / 2 ^ 53" using b5 by linarith
  have "nt / 2 ^ 53 \<le> 10000 / 2 ^ 53" using b3 by (rule divide_right_mono) simp
  then have c5: "ev \<le> 10000 / 2 ^ 53" using b4 by linarith
  have c6: "(100000002 / 2 ^ 53 :: rat) + 10000 / 2 ^ 53 \<le> 200000000 / 2 ^ 53" by simp
  have c7: "(J + 1) * (200000000 / 2 ^ 53) = J * (200000000 / 2 ^ 53) + 200000000 / 2 ^ 53"
    by (simp add: algebra_simps)
  have "\<bar>fl64 (S + v) - (T + t)\<bar> \<le> (J + 1) * (200000000 / 2 ^ 53)"
    unfolding c7 using tri2 b1 c4 c5 c6 by linarith
  moreover have "\<bar>T + t\<bar> \<le> (J + 1) * 10000"
  proof -
    have "(J + 1) * 10000 = J * 10000 + 10000" by (simp add: algebra_simps)
    then show ?thesis using tri3 b2 b3 by linarith
  qed
  ultimately show ?case unfolding step tot len' by simp
qed


lemma abs_div_pos:
  fixes a :: rat
  assumes "0 < N"
  shows "\<bar>a / N\<bar> = \<bar>a\<bar> / N"
  using assms by (simp add: abs_divide)

lemma mean_rounds:
  fixes ms :: "int list"
  assumes "ms \<noteq> []" "length ms \<le> 10000" "\<forall>m \<in> set ms. \<bar>m\<bar> \<le> 1000000"
  shows "\<exists>k. js_div (Math_round (js_mul
              (js_div (foldl js_add 0 (map (\<lambda>m. fl64 (of_int m / 100)) ms))
                 (of_nat (length ms))) 10)) 10 = fl64 (of_int k / 10) \<and>
             \<bar>of_int k - of_int (sum_list ms) / (10 * of_nat (length ms))\<bar> \<le> (1 / 2 :: rat)"
proof -
  define n where "n = length ms"
  define N :: rat where "N = of_nat n"
  define S where "S = foldl js_add 0 (map (\<lambda>m. fl64 (of_int m / 100)) ms)"
  define \<Sigma> where "\<Sigma> = sum_list ms"
  define T :: rat where "T = of_int \<Sigma> / 100"
  define q where "q = S / N"
  define \<mu> where "\<mu> = T / N"
  define a where "a = fl64 q"
  define y where "y = fl64 (a * 10)"
  define k where "k = \<lfloor>y + 1 / 2\<rfloor>"
  have n: "1 \<le> n" "n \<le> 10000" using assms by (simp_all add: n_def Suc_le_eq)
  then have "(of_nat 1 :: rat) \<le> of_nat n" "(of_nat n :: rat) \<le> of_nat 10000"
    by (simp_all only: of_nat_le_iff)
  then have N: "1 \<le> N" "N \<le> 10000" by (simp_all add: N_def)
  then have Npos: "0 < N" by simp
  from sum_error[OF assms(2,3)]
  have se: "\<bar>S - T\<bar> \<le> N * (200000000 / 2 ^ 53)" and st: "\<bar>T\<bar> \<le> N * 10000"
    by (simp_all add: S_def T_def \<Sigma>_def N_def n_def)
  have calc: "js_div (Math_round (js_mul
              (js_div (foldl js_add 0 (map (\<lambda>m. fl64 (of_int m / 100)) ms))
                 (of_nat (length ms))) 10)) 10 = fl64 (of_int k / 10)"
    by (simp add: js_div_def js_mul_def Math_round_def k_def y_def a_def q_def S_def N_def n_def)
  define e1 where "e1 = \<bar>q - \<mu>\<bar>"
  define e2 where "e2 = \<bar>a - q\<bar>"
  define e3 where "e3 = \<bar>y - a * 10\<bar>"
  define nq where "nq = \<bar>q\<bar>"
  define nm where "nm = \<bar>\<mu>\<bar>"
  define na where "na = \<bar>a\<bar>"
  have b1: "e1 \<le> 200000000 / 2 ^ 53"
  proof -
    have "q - \<mu> = (S - T) / N" by (simp add: q_def \<mu>_def diff_divide_distrib)
    then have "e1 = \<bar>S - T\<bar> / N" using Npos by (simp add: e1_def abs_div_pos)
    also have "\<dots> \<le> (N * (200000000 / 2 ^ 53)) / N" using se Npos by (intro divide_right_mono) simp_all
    also have "\<dots> = 200000000 / 2 ^ 53" using Npos by simp
    finally show ?thesis .
  qed
  have b2: "nm \<le> 10000"
  proof -
    have "nm = \<bar>T\<bar> / N" using Npos by (simp add: nm_def \<mu>_def abs_div_pos)
    also have "\<dots> \<le> (N * 10000) / N" using st Npos by (intro divide_right_mono) simp_all
    also have "\<dots> = 10000" using Npos by simp
    finally show ?thesis .
  qed
  have t1: "nq \<le> nm + e1"
  proof -
    have "\<bar>\<mu> + (q - \<mu>)\<bar> \<le> \<bar>\<mu>\<bar> + \<bar>q - \<mu>\<bar>" by (rule abs_triangle_ineq)
    then show ?thesis by (simp add: nq_def nm_def e1_def)
  qed
  have c0: "(200000000 / 2 ^ 53 :: rat) \<le> 1" by simp
  have nq: "nq \<le> 10001" using t1 b1 b2 c0 by linarith
  have "e2 \<le> nq / 2 ^ 53" unfolding e2_def nq_def a_def by (rule fl64_error)
  moreover have "nq / 2 ^ 53 \<le> 10001 / 2 ^ 53" using nq by (rule divide_right_mono) simp
  ultimately have b3: "e2 \<le> 10001 / 2 ^ 53" by linarith
  have t2: "na \<le> nq + e2"
  proof -
    have "\<bar>q + (a - q)\<bar> \<le> \<bar>q\<bar> + \<bar>a - q\<bar>" by (rule abs_triangle_ineq)
    then show ?thesis by (simp add: na_def nq_def e2_def)
  qed
  have c1: "(10001 / 2 ^ 53 :: rat) \<le> 1" by simp
  have na: "na \<le> 10002" using t2 nq b3 c1 by linarith
  have "e3 \<le> \<bar>a * 10\<bar> / 2 ^ 53" unfolding e3_def y_def by (rule fl64_error)
  moreover have "\<bar>a * 10\<bar> = na * 10" by (simp add: na_def abs_mult)
  ultimately have "e3 \<le> na * 10 / 2 ^ 53" by simp
  moreover have "na * 10 / 2 ^ 53 \<le> 100020 / 2 ^ 53" using na by (intro divide_right_mono) simp_all
  ultimately have b4: "e3 \<le> 100020 / 2 ^ 53" by (rule order_trans)
  have t3: "\<bar>y - \<mu> * 10\<bar> \<le> e3 + e2 * 10 + e1 * 10"
  proof -
    have "y - \<mu> * 10 = (y - a * 10) + ((a - q) * 10 + (q - \<mu>) * 10)" by (simp add: algebra_simps)
    then have "\<bar>y - \<mu> * 10\<bar> = \<bar>(y - a * 10) + ((a - q) * 10 + (q - \<mu>) * 10)\<bar>" by simp
    also have "\<dots> \<le> \<bar>y - a * 10\<bar> + \<bar>(a - q) * 10 + (q - \<mu>) * 10\<bar>" by (rule abs_triangle_ineq)
    finally have s1: "\<bar>y - \<mu> * 10\<bar> \<le> e3 + \<bar>(a - q) * 10 + (q - \<mu>) * 10\<bar>"
      by (simp only: e3_def)
    have s2: "\<bar>(a - q) * 10 + (q - \<mu>) * 10\<bar> \<le> \<bar>(a - q) * 10\<bar> + \<bar>(q - \<mu>) * 10\<bar>"
      by (rule abs_triangle_ineq)
    have m1: "\<bar>(a - q) * 10\<bar> = e2 * 10"
      unfolding e2_def using abs_mult[of "a - q" 10] by simp
    have m2: "\<bar>(q - \<mu>) * 10\<bar> = e1 * 10"
      unfolding e1_def using abs_mult[of "q - \<mu>" 10] by simp
    define z where "z = \<bar>(a - q) * 10 + (q - \<mu>) * 10\<bar>"
    define w where "w = \<bar>y - \<mu> * 10\<bar>"
    have "w \<le> e3 + z" using s1 by (simp only: z_def w_def)
    moreover have "z \<le> e2 * 10 + e1 * 10" using s2 by (simp only: m1 m2 z_def)
    ultimately have "w \<le> e3 + e2 * 10 + e1 * 10" by linarith
    then show ?thesis by (simp only: w_def)
  qed
  have c2: "(100020 / 2 ^ 53 :: rat) + 10001 / 2 ^ 53 * 10 + 200000000 / 2 ^ 53 * 10 < 1 / 100000"
    by simp
  have close: "\<bar>y - \<mu> * 10\<bar> < 1 / 100000" using t3 b1 b3 b4 c2 by linarith
  have mu10: "\<mu> * 10 = of_int \<Sigma> / (10 * N)" using Npos by (simp add: \<mu>_def T_def)
  have gap: "1 / 100000 \<le> 1 / (10 * N)"
    using N Npos by (intro divide_left_mono) simp_all
  have fl_lo: "of_int k \<le> y + 1 / 2" and fl_hi: "y + 1 / 2 < of_int k + 1"
    unfolding k_def by linarith+
  have N10: "(10 * N) = of_int (10 * int n)" by (simp add: N_def)
  have upper: "\<mu> * 10 \<le> of_int k + 1 / 2"
  proof (rule ccontr)
    assume "\<not> \<mu> * 10 \<le> of_int k + 1 / 2"
    then have "of_int k + 1 / 2 < of_int \<Sigma> / (10 * N)" by (simp add: mu10)
    then have "(of_int k + 1 / 2) * (10 * N) < of_int \<Sigma>"
      using Npos by (simp add: pos_less_divide_eq)
    moreover have "(of_int k + 1 / 2) * (10 * N) = of_int (10 * k * int n + 5 * int n)"
      by (simp add: N_def algebra_simps)
    ultimately have "(of_int (10 * k * int n + 5 * int n) :: rat) < of_int \<Sigma>" by simp
    then have "10 * k * int n + 5 * int n < \<Sigma>" by (simp only: of_int_less_iff)
    then have "10 * k * int n + 5 * int n + 1 \<le> \<Sigma>" by simp
    then have "(of_int (10 * k * int n + 5 * int n + 1) :: rat) \<le> of_int \<Sigma>"
      by (simp only: of_int_le_iff)
    moreover have "(of_int (10 * k * int n + 5 * int n + 1) :: rat) =
        (of_int k + 1 / 2 + 1 / (10 * N)) * (10 * N)"
      using Npos by (simp add: N_def algebra_simps)
    ultimately have "(of_int k + 1 / 2 + 1 / (10 * N)) * (10 * N) \<le> of_int \<Sigma>" by simp
    then have "of_int k + 1 / 2 + 1 / (10 * N) \<le> \<mu> * 10"
      using Npos by (simp add: mu10 pos_le_divide_eq)
    with fl_hi close gap show False by linarith
  qed
  have lower: "of_int k - 1 / 2 \<le> \<mu> * 10"
  proof (rule ccontr)
    assume "\<not> of_int k - 1 / 2 \<le> \<mu> * 10"
    then have "of_int \<Sigma> / (10 * N) < of_int k - 1 / 2" by (simp add: mu10)
    then have "of_int \<Sigma> < (of_int k - 1 / 2) * (10 * N)"
      using Npos by (simp add: pos_divide_less_eq)
    moreover have "(of_int k - 1 / 2) * (10 * N) = of_int (10 * k * int n - 5 * int n)"
      by (simp add: N_def algebra_simps)
    ultimately have "(of_int \<Sigma> :: rat) < of_int (10 * k * int n - 5 * int n)" by simp
    then have "\<Sigma> < 10 * k * int n - 5 * int n" by (simp only: of_int_less_iff)
    then have "\<Sigma> \<le> 10 * k * int n - 5 * int n - 1" by simp
    then have "(of_int \<Sigma> :: rat) \<le> of_int (10 * k * int n - 5 * int n - 1)"
      by (simp only: of_int_le_iff)
    moreover have "(of_int (10 * k * int n - 5 * int n - 1) :: rat) =
        (of_int k - 1 / 2 - 1 / (10 * N)) * (10 * N)"
      using Npos by (simp add: N_def algebra_simps)
    ultimately have "of_int \<Sigma> \<le> (of_int k - 1 / 2 - 1 / (10 * N)) * (10 * N)" by simp
    then have "\<mu> * 10 \<le> of_int k - 1 / 2 - 1 / (10 * N)"
      using Npos by (simp add: mu10 pos_divide_le_eq)
    with fl_lo close gap show False by linarith
  qed
  have "\<bar>of_int k - \<mu> * 10\<bar> \<le> 1 / 2" using upper lower by linarith
  then have "\<bar>of_int k - of_int (sum_list ms) / (10 * of_nat (length ms))\<bar> \<le> (1 / 2 :: rat)"
    by (simp add: mu10 \<Sigma>_def N_def n_def)
  with calc show ?thesis by blast
qed


lemma lateToday_store_inv:
  assumes "store_inv s"
  shows "lateToday (getAttendanceStatistics day s) = 0"
proof -
  have "\<forall>r \<in> set (map_values s). status r \<noteq> ''late''"
    using assms unfolding store_inv_def by auto
  then have "filter (\<lambda>record. status record = ''late'')
      (filter (\<lambda>record. date record = day) (map_values s)) = []"
    by (auto simp: filter_empty_conv)
  then show ?thesis by (simp add: getAttendanceStatistics_def Let_def)
qed

lemma currentlyActive_store_inv:
  assumes "store_inv s"
  shows "currentlyActive (getAttendanceStatistics day s) = length (openToday day s)"
proof -
  have "\<forall>r \<in> set (map_values s). status r = ''active'' \<longleftrightarrow> clockOutTime r = None"
    using assms unfolding store_inv_def by auto
  then have "filter (\<lambda>record. status record = ''active'') (todayRecords day s) =
      filter (\<lambda>r. clockOutTime r = None) (todayRecords day s)"
    by (intro filter_cong) (auto simp: todayRecords_def)
  then show ?thesis
    by (simp add: getAttendanceStatistics_def Let_def openToday_def todayRecords_def)
qed

lemma calculateHours_8h: "calculateHours T (T + 28800000) = Hours 8"
proof -
  have a: "fl64 28800000 = 28800000" using fl64_of_int[of 28800000] by simp
  have b: "fl64 8 = 8" using fl64_of_int[of 8] by simp
  have c: "fl64 800 = 800" using fl64_of_int[of 800] by simp
  have d: "\<lfloor>1601 / 2 :: rat\<rfloor> = 800" by linarith
  show ?thesis
    by (simp add: calculateHours_def js_sub_def js_div_def js_mul_def Math_round_def a b c d)
qed

lemma served_a_day: "served a_day = three_sessions"
proof -
  define r1 where "r1 = arrived ''u1'' ''cy'' 1704092400000 ''active''"
  define r2 where "r2 = arrived ''u2'' ''ann'' 1704096000000 ''active''"
  define r3 where "r3 = arrived ''u3'' ''bob'' 1704103200000 ''active''"
  have s1: "clockIn (env_at 1704092400000 ''u1'') ''cy'' ''Other'' [] = (Inr r1, [(''u1'', r1)])"
    by (simp add: env_at_def clockIn_def clockInSchema_parse_def departments_Other
        getActiveAttendanceRecord_def map_values_def createAttendanceRecord_def arrived_def
        r1_def Let_def)
  have s2: "clockIn (env_at 1704096000000 ''u2'') ''ann'' ''Other'' [(''u1'', r1)] =
      (Inr r2, [(''u1'', r1), (''u2'', r2)])"
    by (simp add: env_at_def clockIn_def clockInSchema_parse_def departments_Other
        getActiveAttendanceRecord_def map_values_def createAttendanceRecord_def arrived_def
        r1_def r2_def Let_def)
  have s3: "clockIn (env_at 1704103200000 ''u3'') ''bob'' ''Other'' [(''u1'', r1), (''u2'', r2)] =
      (Inr r3, [(''u1'', r1), (''u2'', r2), (''u3'', r3)])"
    by (simp add: env_at_def clockIn_def clockInSchema_parse_def departments_Other
        getActiveAttendanceRecord_def map_values_def createAttendanceRecord_def arrived_def
        r1_def r2_def r3_def Let_def)
  have h: "calculateHours 1704092400000 1704121200000 = Hours 8"
    using calculateHours_8h[of 1704092400000] by simp
  have s4: "clockOut 1704121200000 ''u1'' [(''u1'', r1), (''u2'', r2), (''u3'', r3)] =
      (Inr (Some (worked ''u1'' ''cy'' 1704092400000 8)),
       [(''u1'', worked ''u1'' ''cy'' 1704092400000 8), (''u2'', r2), (''u3'', r3)])"
    using h
    by (simp add: clockOut_open[where r = r1] getAttendanceRecord_def map_get_def r1_def
        arrived_def worked_def)
  have "served a_day =
      [(''u1'', worked ''u1'' ''cy'' 1704092400000 8), (''u2'', r2), (''u3'', r3)]"
    by (simp add: served_def a_day_def s1 s2 s3 s4)
  then show ?thesis
    by (simp add: three_sessions_def r2_def r3_def)
qed

lemma store_inv_three: "store_inv three_sessions"
  by (simp add: store_inv_def wf_store_def three_sessions_def map_values_def arrived_def
      worked_def)

lemma hoursToday_three: "hoursToday ''2024-01-01'' three_sessions = [8]"
  by (simp add: hoursToday_def todayRecords_def three_sessions_def map_values_def
      arrived_def worked_def)

lemma fl64_8: "fl64 8 = 8" "fl64 80 = 80"
  using fl64_of_int[of 8] fl64_of_int[of 80] by simp_all

lemma floor_80: "\<lfloor>161 / 2 :: rat\<rfloor> = 80"
  by linarith

lemma statistics_three:
  "getAttendanceStatistics ''2024-01-01'' three_sessions =
     \<lparr> totalEmployees = 3, currentlyActive = 2, lateToday = 0, avgHoursToday = 8 \<rparr>"
proof -
  have avg: "avgHoursToday (getAttendanceStatistics ''2024-01-01'' three_sessions) = 8"
    by (simp add: avgHoursToday_eq hoursToday_three js_add_def js_div_def js_mul_def
        Math_round_def fl64_8 floor_80)
  have rest: "totalEmployees (getAttendanceStatistics ''2024-01-01'' three_sessions) = 3"
    "currentlyActive (getAttendanceStatistics ''2024-01-01'' three_sessions) = 2"
    "lateToday (getAttendanceStatistics ''2024-01-01'' three_sessions) = 0"
    by (simp_all add: getAttendanceStatistics_def Let_def three_sessions_def map_values_def
        arrived_def worked_def)
  show ?thesis
    using avg rest by (cases "getAttendanceStatistics ''2024-01-01'' three_sessions") simp
qed

text \<open>
  C8. \<open>lateToday\<close> is to count the sessions of today that clocked in late, closed or
  not, and \<open>currentlyActive\<close> is to leave the open ones of them out. On the day of the
  example bob clocks in at 10:00:00, which the handler classifies \<open>late\<close>, and ann at
  08:00:00, on time: three sessions, one on time and open, one late and open, one
  closed after eight hours. The statistics of that day give two sessions as currently
  active and none as late. No sequence of requests ever makes \<open>lateToday\<close> anything but
  0, and \<open>currentlyActive\<close> is the number of today's open sessions, late arrivals
  included.
\<close>

theorem lateToday_never_counts:
  "determineStatus UTC 1704092400000 = ''active'' \<and>
   determineStatus UTC 1704096000000 = ''active'' \<and>
   determineStatus UTC 1704103200000 = ''late'' \<and>
   served a_day = three_sessions \<and>
   getAttendanceStatistics ''2024-01-01'' (served a_day) =
     \<lparr> totalEmployees = 3, currentlyActive = 2, lateToday = 0, avgHoursToday = 8 \<rparr> \<and>
   (\<forall>requests day.
      lateToday (getAttendanceStatistics day (served requests)) = 0 \<and>
      currentlyActive (getAttendanceStatistics day (served requests)) =
        length (openToday day (served requests)))"
proof -
  have "determineStatus UTC 1704092400000 = ''active''"
    "determineStatus UTC 1704096000000 = ''active''"
    "determineStatus UTC 1704103200000 = ''late''"
    by (simp_all add: determineStatus_def getHours_def getMinutes_def UTC_def)
  moreover have "\<forall>requests day.
      lateToday (getAttendanceStatistics day (served requests)) = 0 \<and>
      currentlyActive (getAttendanceStatistics day (served requests)) =
        length (openToday day (served requests))"
    using lateToday_store_inv[OF store_inv_served] currentlyActive_store_inv[OF store_inv_served]
    by simp
  ultimately show ?thesis
    by (simp only: served_a_day statistics_three) simp
qed

text \<open>
  X3. The other figures, on a store the handlers have built. Over the sessions dated
  today: \<open>totalEmployees\<close> is the number of distinct names; \<open>currentlyActive\<close> is the
  number of open sessions, and together with the sessions that have total hours they are
  all of today's sessions. \<open>avgHoursToday\<close> is 0 when no session has total hours. When
  the totals are the numbers \<open>calculateHours\<close> writes (the binary64 values of
  hundredths \<open>m / 100\<close>; here at most 10000 of them, each at most 10000 hours), it is
  the binary64 value nearest to \<open>k / 10\<close> for an integer \<open>k\<close>, with \<open>k / 10\<close> within
  half a tenth of the mean of the totals: the mean rounded to one decimal.
\<close>

theorem statistics_figures:
  assumes "store_inv s"
  shows
  "totalEmployees (getAttendanceStatistics day s) = card (employeeName ` set (todayRecords day s)) \<and>
   currentlyActive (getAttendanceStatistics day s) = length (openToday day s) \<and>
   length (openToday day s) + length (hoursToday day s) = length (todayRecords day s) \<and>
   (hoursToday day s = [] \<longrightarrow> avgHoursToday (getAttendanceStatistics day s) = 0) \<and>
   (\<forall>ms. ms \<noteq> [] \<and> length ms \<le> 10000 \<and> (\<forall>m \<in> set ms. \<bar>m\<bar> \<le> 1000000) \<and>
         hoursToday day s = map (\<lambda>m. fl64 (of_int m / 100)) ms \<longrightarrow>
      (\<exists>k. avgHoursToday (getAttendanceStatistics day s) = fl64 (of_int k / 10) \<and>
           \<bar>of_int k / 10 - of_int (sum_list ms) / 100 / of_nat (length ms)\<bar> \<le> (1 / 20 :: rat)))"
proof (intro conjI allI impI)
  show "totalEmployees (getAttendanceStatistics day s) =
      card (employeeName ` set (todayRecords day s))"
    by (simp add: getAttendanceStatistics_def Let_def todayRecords_def length_remdups_card_conv)
  show "currentlyActive (getAttendanceStatistics day s) = length (openToday day s)"
    using assms by (rule currentlyActive_store_inv)
  show "length (openToday day s) + length (hoursToday day s) = length (todayRecords day s)"
  proof -
    have "\<forall>r \<in> set (map_values s). totalHours r \<noteq> None \<longleftrightarrow> \<not> clockOutTime r = None"
      using assms unfolding store_inv_def by auto
    then have "filter (\<lambda>r. totalHours r \<noteq> None) (todayRecords day s) =
        filter (\<lambda>r. \<not> clockOutTime r = None) (todayRecords day s)"
      by (intro filter_cong) (auto simp: todayRecords_def)
    then have "length (hoursToday day s) =
        length (filter (\<lambda>r. \<not> clockOutTime r = None) (todayRecords day s))"
      by (simp add: hoursToday_def)
    then show ?thesis
      using sum_length_filter_compl[of "\<lambda>r. clockOutTime r = None" "todayRecords day s"]
      by (simp add: openToday_def)
  qed
  show "avgHoursToday (getAttendanceStatistics day s) = 0" if "hoursToday day s = []"
    using that by (rule avg_none)
next
  fix ms :: "int list"
  assume a: "ms \<noteq> [] \<and> length ms \<le> 10000 \<and> (\<forall>m \<in> set ms. \<bar>m\<bar> \<le> 1000000) \<and>
         hoursToday day s = map (\<lambda>m. fl64 (of_int m / 100)) ms"
  then have ms: "ms \<noteq> []" "length ms \<le> 10000" "\<forall>m \<in> set ms. \<bar>m\<bar> \<le> 1000000"
    and hs: "hoursToday day s = map (\<lambda>m. fl64 (of_int m / 100)) ms"
    by simp_all
  from mean_rounds[OF ms] obtain k where
    k: "js_div (Math_round (js_mul
              (js_div (foldl js_add 0 (map (\<lambda>m. fl64 (of_int m / 100)) ms))
                 (of_nat (length ms))) 10)) 10 = fl64 (of_int k / 10)"
    and near: "\<bar>of_int k - of_int (sum_list ms) / (10 * of_nat (length ms))\<bar> \<le> (1 / 2 :: rat)"
    by blast
  have "avgHoursToday (getAttendanceStatistics day s) = fl64 (of_int k / 10)"
    using ms(1) k by (simp add: avgHoursToday_eq hs)
  moreover have "\<bar>of_int k / 10 - of_int (sum_list ms) / 100 / of_nat (length ms)\<bar> \<le> (1 / 20 :: rat)"
  proof -
    have eq: "of_int k / 10 - of_int (sum_list ms) / 100 / of_nat (length ms) =
        (of_int k - of_int (sum_list ms) / (10 * of_nat (length ms))) / (10 :: rat)"
      by (simp add: field_simps)
    have "\<bar>of_int k / 10 - of_int (sum_list ms) / 100 / of_nat (length ms)\<bar> =
        \<bar>of_int k - of_int (sum_list ms) / (10 * of_nat (length ms))\<bar> / \<bar>10 :: rat\<bar>"
      unfolding eq by (rule abs_divide)
    with near show ?thesis by simp
  qed
  ultimately show "\<exists>k. avgHoursToday (getAttendanceStatistics day s) = fl64 (of_int k / 10) \<and>
           \<bar>of_int k / 10 - of_int (sum_list ms) / 100 / of_nat (length ms)\<bar> \<le> (1 / 20 :: rat)"
    by blast
qed

text \<open>The worked case: the day of the example, with two open sessions and one closed
  after eight hours.\<close>

theorem statistics_figures_witness:
  "store_inv three_sessions \<and>
   hoursToday ''2024-01-01'' three_sessions = map (\<lambda>m. fl64 (of_int m / 100)) [800] \<and>
   getAttendanceStatistics ''2024-01-01'' three_sessions =
     \<lparr> totalEmployees = 3, currentlyActive = 2, lateToday = 0, avgHoursToday = 8 \<rparr>"
  using statistics_figures [OF store_inv_three, of "''2024-01-01''"] statistics_three
  by (simp add: hoursToday_three fl64_8 store_inv_three)

end
